theory Spec2Isabelle
  imports Main "HOL-Library.Word"
begin

section \<open>Data model (package models)\<close>

text \<open>
  A \<^verbatim>\<open>time.Time\<close> is an instant on one clock, counted in nanoseconds from the zero
  instant \<^verbatim>\<open>time.Time{}\<close>; a \<^verbatim>\<open>time.Duration\<close> is a signed count of nanoseconds.
  Every operation below reads the clock once: the instant is its argument \<open>now\<close>.
  The integers \<^verbatim>\<open>int64\<close> of identities and counters are unbounded here; no
  property below is near their range.
\<close>

type_synonym time = int
type_synonym duration = int

definition IsZero :: "time \<Rightarrow> bool" where
  "IsZero t \<longleftrightarrow> t = 0"

definition Before :: "time \<Rightarrow> time \<Rightarrow> bool" where
  "Before t u \<longleftrightarrow> t < u"

definition Hour :: duration where
  "Hour = 3600 * 1000000000"

record URL =
  ID :: int
  Original :: string
  Short :: string
  Title :: string
  CreatedAt :: time
  ExpiresAt :: time
  Clicks :: int
  CreatorReference :: string
  DeletedAt :: "time option"

record Click =
  ClickID :: int
  URLID :: int
  URLShort :: string
  IP :: string
  Location :: string
  Browser :: string
  Device :: string
  Timestamp :: time

text \<open>The zero value of the struct, as \<^verbatim>\<open>&models.URL{}\<close> and \<^verbatim>\<open>var url models.URL\<close> give it.\<close>

definition zeroURL :: URL where
  "zeroURL = \<lparr>ID = 0, Original = [], Short = [], Title = [], CreatedAt = 0, ExpiresAt = 0,
     Clicks = 0, CreatorReference = [], DeletedAt = None\<rparr>"

definition NewURL :: "time \<Rightarrow> string \<Rightarrow> string \<Rightarrow> string \<Rightarrow> time \<Rightarrow> string \<Rightarrow> URL" where
  "NewURL now original short title expiresAt creatorReference =
     \<lparr>ID = 0, Original = original, Short = short, Title = title, CreatedAt = now,
      ExpiresAt = expiresAt, Clicks = 0, CreatorReference = creatorReference, DeletedAt = None\<rparr>"

definition NewClick :: "time \<Rightarrow> int \<Rightarrow> string \<Rightarrow> string \<Rightarrow> string \<Rightarrow> string \<Rightarrow> string \<Rightarrow> Click" where
  "NewClick now urlID urlShort ip location browser device =
     \<lparr>ClickID = 0, URLID = urlID, URLShort = urlShort, IP = ip, Location = location,
      Browser = browser, Device = device, Timestamp = now\<rparr>"

text \<open>
  The expiry test that every read path of the source writes out:
  \<^verbatim>\<open>!url.ExpiresAt.IsZero() && url.ExpiresAt.Before(time.Now())\<close>.
\<close>

definition expired :: "URL \<Rightarrow> time \<Rightarrow> bool" where
  "expired url now \<longleftrightarrow> \<not> IsZero (ExpiresAt url) \<and> Before (ExpiresAt url) now"

section \<open>Errors\<close>

text \<open>
  The four sentinels of \<^verbatim>\<open>store/url_repository.go\<close>; the error that the two creator-scoped
  repository operations build with \<^verbatim>\<open>errors.New("unauthorized: creator reference does not match")\<close>;
  \<^verbatim>\<open>redis.Nil\<close> and \<^verbatim>\<open>pgx.ErrNoRows\<close>; and the errors of the drivers: a failed round trip,
  a violated uniqueness or foreign-key constraint, a JSON value that does not decode, a slice out of range.
\<close>

datatype error =
    ErrURLNotFound
  | ErrURLExists
  | ErrInvalidURL
  | ErrRecentClick
  | ErrUnauthorized
  | RedisNil
  | ErrNoRows
  | ErrBackend
  | ErrUniqueViolation
  | ErrForeignKeyViolation
  | ErrJSON
  | PanicSliceBounds

section \<open>JSON copies of a URL record\<close>

text \<open>
  \<^verbatim>\<open>json.Marshal\<close> and \<^verbatim>\<open>json.Unmarshal\<close> on \<^verbatim>\<open>models.URL\<close>, at the level of JSON
  values: an object is its list of members, in order. The member names and the
  \<^verbatim>\<open>omitempty\<close> options are the struct tags of \<^verbatim>\<open>models.URL\<close>; \<^verbatim>\<open>omitempty\<close> drops an
  empty string and a nil pointer, and has no effect on the struct \<^verbatim>\<open>time.Time\<close>.
  A timestamp string that parses is \<open>JTime\<close>; strings are taken to be valid UTF-8.
\<close>

datatype jval = JNumber int | JString string | JTime time | JNull

type_synonym json = "(string \<times> jval) list"

definition json_Marshal :: "URL \<Rightarrow> error + json" where
  "json_Marshal url = Inr (
     [(''id'', JNumber (ID url)),
      (''original'', JString (Original url)),
      (''short'', JString (Short url)),
      (''title'', JString (Title url)),
      (''created_at'', JTime (CreatedAt url)),
      (''expires_at'', JTime (ExpiresAt url)),
      (''clicks'', JNumber (Clicks url))]
     @ (if CreatorReference url = [] then [] else [(''creator_reference'', JString (CreatorReference url))])
     @ (case DeletedAt url of None \<Rightarrow> [] | Some t \<Rightarrow> [(''deleted_at'', JTime t)]))"

definition set_number :: "jval \<Rightarrow> (int \<Rightarrow> URL) \<Rightarrow> URL \<Rightarrow> error + URL" where
  "set_number v upd url = (case v of JNumber n \<Rightarrow> Inr (upd n) | JNull \<Rightarrow> Inr url | _ \<Rightarrow> Inl ErrJSON)"

definition set_string :: "jval \<Rightarrow> (string \<Rightarrow> URL) \<Rightarrow> URL \<Rightarrow> error + URL" where
  "set_string v upd url = (case v of JString s \<Rightarrow> Inr (upd s) | JNull \<Rightarrow> Inr url | _ \<Rightarrow> Inl ErrJSON)"

definition set_time :: "jval \<Rightarrow> (time \<Rightarrow> URL) \<Rightarrow> URL \<Rightarrow> error + URL" where
  "set_time v upd url = (case v of JTime t \<Rightarrow> Inr (upd t) | JNull \<Rightarrow> Inr url | _ \<Rightarrow> Inl ErrJSON)"

definition set_member :: "string \<times> jval \<Rightarrow> URL \<Rightarrow> error + URL" where
  "set_member m url = (case m of (k, v) \<Rightarrow>
     if k = ''id'' then set_number v (\<lambda>n. url\<lparr>ID := n\<rparr>) url
     else if k = ''original'' then set_string v (\<lambda>s. url\<lparr>Original := s\<rparr>) url
     else if k = ''short'' then set_string v (\<lambda>s. url\<lparr>Short := s\<rparr>) url
     else if k = ''title'' then set_string v (\<lambda>s. url\<lparr>Title := s\<rparr>) url
     else if k = ''created_at'' then set_time v (\<lambda>t. url\<lparr>CreatedAt := t\<rparr>) url
     else if k = ''expires_at'' then set_time v (\<lambda>t. url\<lparr>ExpiresAt := t\<rparr>) url
     else if k = ''clicks'' then set_number v (\<lambda>n. url\<lparr>Clicks := n\<rparr>) url
     else if k = ''creator_reference'' then set_string v (\<lambda>s. url\<lparr>CreatorReference := s\<rparr>) url
     else if k = ''deleted_at'' then
       (case v of JTime t \<Rightarrow> Inr (url\<lparr>DeletedAt := Some t\<rparr>)
                | JNull \<Rightarrow> Inr (url\<lparr>DeletedAt := None\<rparr>)
                | _ \<Rightarrow> Inl ErrJSON)
     else Inr url)"

fun decode_members :: "json \<Rightarrow> URL \<Rightarrow> error + URL" where
  "decode_members [] url = Inr url"
| "decode_members (m # ms) url =
     (case set_member m url of Inl e \<Rightarrow> Inl e | Inr url' \<Rightarrow> decode_members ms url')"

definition json_Unmarshal :: "json \<Rightarrow> error + URL" where
  "json_Unmarshal data = decode_members data zeroURL"

section \<open>The Redis client\<close>

text \<open>
  The server behind \<^verbatim>\<open>redis.Client\<close>: each key holds a value and, when it was stored with
  a positive expiration, the instant at which it disappears. \<open>rfaults\<close> is the schedule
  of the round trips to come: each command takes the head of the list, fails with a
  driver error when it is \<open>True\<close>, and an empty schedule means no failure.
\<close>

record redis_Client =
  entries :: "string \<rightharpoonup> json \<times> time option"
  rfaults :: "bool list"

definition redis_roundtrip :: "redis_Client \<Rightarrow> bool \<times> redis_Client" where
  "redis_roundtrip r = (case rfaults r of [] \<Rightarrow> (False, r) | f # fs \<Rightarrow> (f, r\<lparr>rfaults := fs\<rparr>))"

definition KeepTTL :: duration where
  "KeepTTL = -1"

definition visible :: "time \<Rightarrow> (json \<times> time option) option \<Rightarrow> json option" where
  "visible now e = (case e of None \<Rightarrow> None
     | Some (v, None) \<Rightarrow> Some v
     | Some (v, Some deadline) \<Rightarrow> if now < deadline then Some v else None)"

definition client_Set :: "time \<Rightarrow> string \<Rightarrow> json \<Rightarrow> duration \<Rightarrow> redis_Client \<Rightarrow> error option \<times> redis_Client" where
  "client_Set now key data expiration r =
     (case redis_roundtrip r of
        (True, r') \<Rightarrow> (Some ErrBackend, r')
      | (False, r') \<Rightarrow>
          (let deadline =
                 (if expiration > 0 then Some (now + expiration)
                  else if expiration = KeepTTL then
                    (case entries r' key of Some (v, d) \<Rightarrow> (if visible now (Some (v, d)) = None then None else d)
                                           | None \<Rightarrow> None)
                  else None)
           in (None, r'\<lparr>entries := (entries r')(key \<mapsto> (data, deadline))\<rparr>)))"

definition client_Get :: "time \<Rightarrow> string \<Rightarrow> redis_Client \<Rightarrow> (error + json) \<times> redis_Client" where
  "client_Get now key r =
     (case redis_roundtrip r of
        (True, r') \<Rightarrow> (Inl ErrBackend, r')
      | (False, r') \<Rightarrow>
          (case visible now (entries r' key) of
             None \<Rightarrow> (Inl RedisNil, r')
           | Some v \<Rightarrow> (Inr v, r')))"

definition client_Del :: "string list \<Rightarrow> redis_Client \<Rightarrow> error option \<times> redis_Client" where
  "client_Del keys r =
     (case redis_roundtrip r of
        (True, r') \<Rightarrow> (Some ErrBackend, r')
      | (False, r') \<Rightarrow> (None, r'\<lparr>entries := (\<lambda>k. if List.member keys k then None else entries r' k)\<rparr>))"

section \<open>CacheRepository (store/cache_repository.go)\<close>

record CacheRepository =
  client :: redis_Client
  ttl :: duration

definition CacheRepository_Set :: "time \<Rightarrow> URL \<Rightarrow> CacheRepository \<Rightarrow> error option \<times> CacheRepository" where
  "CacheRepository_Set now url c =
     (case json_Marshal url of
        Inl err \<Rightarrow> (Some err, c)
      | Inr data \<Rightarrow>
          (case client_Set now (''short:'' @ Short url) data (ttl c) (client c) of
             (Some err, r1) \<Rightarrow> (Some err, c\<lparr>client := r1\<rparr>)
           | (None, r1) \<Rightarrow>
               (case client_Set now (''original:'' @ Original url) data (ttl c) r1 of
                  (res, r2) \<Rightarrow> (res, c\<lparr>client := r2\<rparr>))))"

definition CacheRepository_GetByShort :: "time \<Rightarrow> string \<Rightarrow> CacheRepository \<Rightarrow> (error + URL) \<times> CacheRepository" where
  "CacheRepository_GetByShort now short c =
     (case client_Get now (''short:'' @ short) (client c) of
        (Inl err, r1) \<Rightarrow>
          (if err = RedisNil then (Inl ErrURLNotFound, c\<lparr>client := r1\<rparr>)
           else (Inl err, c\<lparr>client := r1\<rparr>))
      | (Inr data, r1) \<Rightarrow>
          (case json_Unmarshal data of
             Inl err \<Rightarrow> (Inl err, c\<lparr>client := r1\<rparr>)
           | Inr url \<Rightarrow>
               if \<not> IsZero (ExpiresAt url) \<and> Before (ExpiresAt url) now
               then (Inl ErrURLNotFound,
                     c\<lparr>client := snd (client_Del [''short:'' @ short, ''original:'' @ Original url] r1)\<rparr>)
               else (Inr url, c\<lparr>client := r1\<rparr>)))"

definition CacheRepository_GetByOriginal :: "time \<Rightarrow> string \<Rightarrow> CacheRepository \<Rightarrow> (error + URL) \<times> CacheRepository" where
  "CacheRepository_GetByOriginal now original c =
     (case client_Get now (''original:'' @ original) (client c) of
        (Inl err, r1) \<Rightarrow>
          (if err = RedisNil then (Inl ErrURLNotFound, c\<lparr>client := r1\<rparr>)
           else (Inl err, c\<lparr>client := r1\<rparr>))
      | (Inr data, r1) \<Rightarrow>
          (case json_Unmarshal data of
             Inl err \<Rightarrow> (Inl err, c\<lparr>client := r1\<rparr>)
           | Inr url \<Rightarrow>
               if \<not> IsZero (ExpiresAt url) \<and> Before (ExpiresAt url) now
               then (Inl ErrURLNotFound,
                     c\<lparr>client := snd (client_Del [''short:'' @ Short url, ''original:'' @ original] r1)\<rparr>)
               else (Inr url, c\<lparr>client := r1\<rparr>)))"

definition CacheRepository_IncrementClicks :: "time \<Rightarrow> string \<Rightarrow> CacheRepository \<Rightarrow> error option \<times> CacheRepository" where
  "CacheRepository_IncrementClicks now short c =
     (case CacheRepository_GetByShort now short c of
        (Inl err, c1) \<Rightarrow> (Some err, c1)
      | (Inr url, c1) \<Rightarrow> CacheRepository_Set now (url\<lparr>Clicks := Clicks url + 1\<rparr>) c1)"

definition CacheRepository_Delete :: "time \<Rightarrow> string \<Rightarrow> CacheRepository \<Rightarrow> error option \<times> CacheRepository" where
  "CacheRepository_Delete now short c =
     (case CacheRepository_GetByShort now short c of
        (Inl err, c1) \<Rightarrow>
          (if err \<noteq> ErrURLNotFound then (Some err, c1)
           else (case client_Del [''short:'' @ short] (client c1) of
                   (res, r2) \<Rightarrow> (res, c1\<lparr>client := r2\<rparr>)))
      | (Inr url, c1) \<Rightarrow>
          (case client_Del [''short:'' @ short] (client c1) of
             (Some err, r2) \<Rightarrow> (Some err, c1\<lparr>client := r2\<rparr>)
           | (None, r2) \<Rightarrow>
               (case client_Del [''original:'' @ Original url] r2 of
                  (res, r3) \<Rightarrow> (res, c1\<lparr>client := r3\<rparr>))))"

section \<open>The PostgreSQL pool and its schema (InitSchema)\<close>

text \<open>
  The three tables of \<^verbatim>\<open>InitSchema\<close> as lists of rows in insertion order, the three
  \<^verbatim>\<open>SERIAL\<close> sequences, and the schedule \<open>pfaults\<close> of the round trips to come, read as
  \<open>rfaults\<close> is. A row of \<^verbatim>\<open>urls\<close> has the columns of \<^verbatim>\<open>models.URL\<close>, a row of
  \<^verbatim>\<open>clicks\<close> those of \<^verbatim>\<open>models.Click\<close>. The source never inserts an identity of its own,
  so the primary keys are the values of the sequences. The constraints that the source's
  statements can violate are written out: \<^verbatim>\<open>short TEXT NOT NULL UNIQUE\<close> on \<^verbatim>\<open>urls\<close>, and
  \<^verbatim>\<open>url_id ... REFERENCES urls(id)\<close> on \<^verbatim>\<open>clicks\<close> and \<^verbatim>\<open>url_history\<close>.
\<close>

record History =
  HistoryID :: int
  h_url_id :: int
  h_url_short :: string
  h_action :: string
  h_old_value :: "json option"
  h_new_value :: "json option"
  h_modified_at :: time
  h_modified_by :: string

record pgxpool_Pool =
  urls :: "URL list"
  clicks :: "Click list"
  url_history :: "History list"
  urls_id_seq :: int
  clicks_id_seq :: int
  url_history_id_seq :: int
  pfaults :: "bool list"

definition pg_roundtrip :: "pgxpool_Pool \<Rightarrow> bool \<times> pgxpool_Pool" where
  "pg_roundtrip p = (case pfaults p of [] \<Rightarrow> (False, p) | f # fs \<Rightarrow> (f, p\<lparr>pfaults := fs\<rparr>))"

text \<open>\<^verbatim>\<open>INSERT INTO urls (original, short, ...) VALUES (...)\<close>: the identity is the next value
  of the sequence, which is taken whether or not the row is accepted.\<close>

definition insert_url :: "URL \<Rightarrow> pgxpool_Pool \<Rightarrow> error option \<times> pgxpool_Pool" where
  "insert_url url p =
     (let p' = p\<lparr>urls_id_seq := urls_id_seq p + 1\<rparr>
      in if list_ex (\<lambda>row. Short row = Short url) (urls p) then (Some ErrUniqueViolation, p')
         else (None, p'\<lparr>urls := urls p @ [url\<lparr>ID := urls_id_seq p\<rparr>]\<rparr>))"

definition insert_click :: "Click \<Rightarrow> pgxpool_Pool \<Rightarrow> error option \<times> pgxpool_Pool" where
  "insert_click click p =
     (let p' = p\<lparr>clicks_id_seq := clicks_id_seq p + 1\<rparr>
      in if \<not> list_ex (\<lambda>row. ID row = URLID click) (urls p) then (Some ErrForeignKeyViolation, p')
         else (None, p'\<lparr>clicks := clicks p @ [click\<lparr>ClickID := clicks_id_seq p\<rparr>]\<rparr>))"

definition insert_history :: "History \<Rightarrow> pgxpool_Pool \<Rightarrow> error option \<times> pgxpool_Pool" where
  "insert_history h p =
     (let p' = p\<lparr>url_history_id_seq := url_history_id_seq p + 1\<rparr>
      in if \<not> list_ex (\<lambda>row. ID row = h_url_id h) (urls p) then (Some ErrForeignKeyViolation, p')
         else (None, p'\<lparr>url_history := url_history p @ [h\<lparr>HistoryID := url_history_id_seq p\<rparr>]\<rparr>))"

text \<open>\<^verbatim>\<open>UPDATE urls SET ... WHERE ...\<close>: every row that the condition selects is rewritten.\<close>

definition update_urls :: "(URL \<Rightarrow> bool) \<Rightarrow> (URL \<Rightarrow> URL) \<Rightarrow> pgxpool_Pool \<Rightarrow> pgxpool_Pool" where
  "update_urls cond f p = p\<lparr>urls := map (\<lambda>row. if cond row then f row else row) (urls p)\<rparr>"

section \<open>PostgresRepository\<close>

text \<open>\<^verbatim>\<open>Create\<close> as the source has it: it returns the error alone.\<close>

definition PostgresRepository_Create :: "URL \<Rightarrow> pgxpool_Pool \<Rightarrow> error option \<times> pgxpool_Pool" where
  "PostgresRepository_Create url p =
     (case pg_roundtrip p of
        (True, p1) \<Rightarrow> (Some ErrBackend, p1)
      | (False, p1) \<Rightarrow>
          (let exists = list_ex (\<lambda>row. Short row = Short url \<and> DeletedAt row = None) (urls p1)
           in if exists then (Some ErrURLExists, p1)
              else (case pg_roundtrip p1 of
                      (True, p2) \<Rightarrow> (Some ErrBackend, p2)
                    | (False, p2) \<Rightarrow> insert_url url p2)))"

text \<open>\<^verbatim>\<open>QueryRow(...).Scan(...)\<close> reads the first selected row; none is \<^verbatim>\<open>pgx.ErrNoRows\<close>.\<close>

definition query_row :: "(URL \<Rightarrow> bool) \<Rightarrow> pgxpool_Pool \<Rightarrow> (error + URL) \<times> pgxpool_Pool" where
  "query_row cond p =
     (case pg_roundtrip p of
        (True, p1) \<Rightarrow> (Inl ErrBackend, p1)
      | (False, p1) \<Rightarrow>
          (case find cond (urls p1) of None \<Rightarrow> (Inl ErrNoRows, p1) | Some row \<Rightarrow> (Inr row, p1)))"

definition PostgresRepository_GetByShort :: "time \<Rightarrow> string \<Rightarrow> pgxpool_Pool \<Rightarrow> (error + URL) \<times> pgxpool_Pool" where
  "PostgresRepository_GetByShort now short p =
     (case query_row (\<lambda>row. Short row = short \<and> DeletedAt row = None) p of
        (Inl err, p1) \<Rightarrow> (if err = ErrNoRows then (Inl ErrURLNotFound, p1) else (Inl err, p1))
      | (Inr url, p1) \<Rightarrow>
          if \<not> IsZero (ExpiresAt url) \<and> Before (ExpiresAt url) now then (Inl ErrURLNotFound, p1)
          else (Inr url, p1))"

definition PostgresRepository_GetByOriginal :: "time \<Rightarrow> string \<Rightarrow> pgxpool_Pool \<Rightarrow> (error + URL) \<times> pgxpool_Pool" where
  "PostgresRepository_GetByOriginal now original p =
     (case query_row (\<lambda>row. Original row = original \<and> DeletedAt row = None) p of
        (Inl err, p1) \<Rightarrow> (if err = ErrNoRows then (Inl ErrURLNotFound, p1) else (Inl err, p1))
      | (Inr url, p1) \<Rightarrow>
          if \<not> IsZero (ExpiresAt url) \<and> Before (ExpiresAt url) now then (Inl ErrURLNotFound, p1)
          else (Inr url, p1))"

definition PostgresRepository_GetByCreator :: "time \<Rightarrow> string \<Rightarrow> pgxpool_Pool \<Rightarrow> (error + URL list) \<times> pgxpool_Pool" where
  "PostgresRepository_GetByCreator now creatorReference p =
     (case pg_roundtrip p of
        (True, p1) \<Rightarrow> (Inl ErrBackend, p1)
      | (False, p1) \<Rightarrow>
          (Inr (filter (\<lambda>url. \<not> (\<not> IsZero (ExpiresAt url) \<and> Before (ExpiresAt url) now))
                  (filter (\<lambda>row. CreatorReference row = creatorReference \<and> DeletedAt row = None) (urls p1))),
           p1))"

definition PostgresRepository_IncrementClicks :: "string \<Rightarrow> pgxpool_Pool \<Rightarrow> error option \<times> pgxpool_Pool" where
  "PostgresRepository_IncrementClicks short p =
     (case pg_roundtrip p of
        (True, p1) \<Rightarrow> (Some ErrBackend, p1)
      | (False, p1) \<Rightarrow>
          (None, update_urls (\<lambda>row. Short row = short \<and> DeletedAt row = None)
                   (\<lambda>row. row\<lparr>Clicks := Clicks row + 1\<rparr>) p1))"

definition PostgresRepository_Delete :: "time \<Rightarrow> string \<Rightarrow> pgxpool_Pool \<Rightarrow> error option \<times> pgxpool_Pool" where
  "PostgresRepository_Delete now short p =
     (case pg_roundtrip p of
        (True, p1) \<Rightarrow> (Some ErrBackend, p1)
      | (False, p1) \<Rightarrow>
          (None, update_urls (\<lambda>row. Short row = short \<and> DeletedAt row = None)
                   (\<lambda>row. row\<lparr>DeletedAt := Some now\<rparr>) p1))"

definition PostgresRepository_DeleteWithCreator :: "time \<Rightarrow> string \<Rightarrow> string \<Rightarrow> pgxpool_Pool \<Rightarrow> error option \<times> pgxpool_Pool" where
  "PostgresRepository_DeleteWithCreator now short creatorReference p =
     (case PostgresRepository_GetByShort now short p of
        (Inl err, p1) \<Rightarrow> (Some err, p1)
      | (Inr existingURL, p1) \<Rightarrow>
          if CreatorReference existingURL \<noteq> creatorReference then (Some ErrUnauthorized, p1)
          else (case pg_roundtrip p1 of
                  (True, p2) \<Rightarrow> (Some ErrBackend, p2)
                | (False, p2) \<Rightarrow>
                    (None, update_urls
                       (\<lambda>row. Short row = short \<and> CreatorReference row = creatorReference \<and> DeletedAt row = None)
                       (\<lambda>row. row\<lparr>DeletedAt := Some now\<rparr>) p2)))"

text \<open>\<^verbatim>\<open>DELETE FROM urls WHERE short = $1\<close>, with \<^verbatim>\<open>ON DELETE CASCADE\<close> on the two other tables.\<close>

definition PostgresRepository_HardDelete :: "string \<Rightarrow> pgxpool_Pool \<Rightarrow> error option \<times> pgxpool_Pool" where
  "PostgresRepository_HardDelete short p =
     (case pg_roundtrip p of
        (True, p1) \<Rightarrow> (Some ErrBackend, p1)
      | (False, p1) \<Rightarrow>
          (let gone = map ID (filter (\<lambda>row. Short row = short) (urls p1))
           in (None, p1\<lparr>urls := filter (\<lambda>row. Short row \<noteq> short) (urls p1),
                        clicks := filter (\<lambda>c. URLID c \<notin> set gone) (clicks p1),
                        url_history := filter (\<lambda>h. h_url_id h \<notin> set gone) (url_history p1)\<rparr>)))"

definition PostgresRepository_StoreClick :: "Click \<Rightarrow> pgxpool_Pool \<Rightarrow> error option \<times> pgxpool_Pool" where
  "PostgresRepository_StoreClick click p =
     (case pg_roundtrip p of
        (True, p1) \<Rightarrow> (Some ErrBackend, p1)
      | (False, p1) \<Rightarrow> insert_click click p1)"

definition PostgresRepository_GetClicksByShort :: "string \<Rightarrow> pgxpool_Pool \<Rightarrow> (error + Click list) \<times> pgxpool_Pool" where
  "PostgresRepository_GetClicksByShort short p =
     (case pg_roundtrip p of
        (True, p1) \<Rightarrow> (Inl ErrBackend, p1)
      | (False, p1) \<Rightarrow>
          (Inr (sort_key (\<lambda>c. - Timestamp c) (filter (\<lambda>c. URLShort c = short) (clicks p1))), p1))"

definition PostgresRepository_HasRecentClick ::
  "time \<Rightarrow> string \<Rightarrow> string \<Rightarrow> string \<Rightarrow> string \<Rightarrow> pgxpool_Pool \<Rightarrow> (error + bool) \<times> pgxpool_Pool" where
  "PostgresRepository_HasRecentClick now short ip browser device p =
     (case pg_roundtrip p of
        (True, p1) \<Rightarrow> (Inl ErrBackend, p1)
      | (False, p1) \<Rightarrow>
          (Inr (list_ex (\<lambda>c. URLShort c = short \<and> IP c = ip \<and> Browser c = browser
                                \<and> Device c = device \<and> Timestamp c > now - Hour) (clicks p1)),
           p1))"

definition PostgresRepository_UpdateURL :: "time \<Rightarrow> string \<Rightarrow> URL \<Rightarrow> pgxpool_Pool \<Rightarrow> error option \<times> pgxpool_Pool" where
  "PostgresRepository_UpdateURL now short url p =
     (case PostgresRepository_GetByShort now short p of
        (Inl err, p1) \<Rightarrow> (Some err, p1)
      | (Inr existingURL, p1) \<Rightarrow>
          (case pg_roundtrip p1 of
             (True, p2) \<Rightarrow> (Some ErrBackend, p2)
           | (False, p2) \<Rightarrow>
               (None, update_urls (\<lambda>row. Short row = short \<and> DeletedAt row = None)
                  (\<lambda>row. row\<lparr>Original := Original url, Title := Title url, ExpiresAt := ExpiresAt url\<rparr>) p2)))"

definition PostgresRepository_UpdateURLWithCreator ::
  "time \<Rightarrow> string \<Rightarrow> URL \<Rightarrow> string \<Rightarrow> pgxpool_Pool \<Rightarrow> error option \<times> pgxpool_Pool" where
  "PostgresRepository_UpdateURLWithCreator now short url creatorReference p =
     (case PostgresRepository_GetByShort now short p of
        (Inl err, p1) \<Rightarrow> (Some err, p1)
      | (Inr existingURL, p1) \<Rightarrow>
          if CreatorReference existingURL \<noteq> creatorReference then (Some ErrUnauthorized, p1)
          else (case pg_roundtrip p1 of
                  (True, p2) \<Rightarrow> (Some ErrBackend, p2)
                | (False, p2) \<Rightarrow>
                    (None, update_urls
                       (\<lambda>row. Short row = short \<and> CreatorReference row = creatorReference \<and> DeletedAt row = None)
                       (\<lambda>row. row\<lparr>Original := Original url, Title := Title url, ExpiresAt := ExpiresAt url\<rparr>) p2)))"

text \<open>The two snapshots are \<^verbatim>\<open>*models.URL\<close> or nil at every call site; nil marshals to JSON null.\<close>

definition marshal_snapshot :: "URL option \<Rightarrow> error + json option" where
  "marshal_snapshot v = (case v of None \<Rightarrow> Inr None
     | Some url \<Rightarrow> (case json_Marshal url of Inl err \<Rightarrow> Inl err | Inr j \<Rightarrow> Inr (Some j)))"

definition PostgresRepository_LogURLHistory ::
  "time \<Rightarrow> int \<Rightarrow> string \<Rightarrow> string \<Rightarrow> URL option \<Rightarrow> URL option \<Rightarrow> string \<Rightarrow> pgxpool_Pool \<Rightarrow> error option \<times> pgxpool_Pool" where
  "PostgresRepository_LogURLHistory now urlID short action oldValue newValue modifiedBy p =
     (case marshal_snapshot oldValue of
        Inl err \<Rightarrow> (Some err, p)
      | Inr oldValueJSON \<Rightarrow>
          (case marshal_snapshot newValue of
             Inl err \<Rightarrow> (Some err, p)
           | Inr newValueJSON \<Rightarrow>
               (case pg_roundtrip p of
                  (True, p1) \<Rightarrow> (Some ErrBackend, p1)
                | (False, p1) \<Rightarrow>
                    insert_history
                      \<lparr>HistoryID = 0, h_url_id = urlID, h_url_short = short, h_action = action,
                       h_old_value = oldValueJSON, h_new_value = newValueJSON,
                       h_modified_at = now, h_modified_by = modifiedBy\<rparr> p1)))"

subsection \<open>GetClickAnalytics\<close>

text \<open>
  The result \<^verbatim>\<open>map[string]interface{}\<close> holds an \<^verbatim>\<open>int64\<close> under one key and a
  \<^verbatim>\<open>map[string]int64\<close> under three; both kinds of Go map are association lists here,
  written by assignment (\<open>assign\<close> replaces the value of a key that is present).
\<close>

fun assign :: "'k \<Rightarrow> 'v \<Rightarrow> ('k \<times> 'v) list \<Rightarrow> ('k \<times> 'v) list" where
  "assign k v [] = [(k, v)]"
| "assign k v (p # ps) = (if fst p = k then (k, v) # ps else p # assign k v ps)"

datatype analytics_value = Count int | Stats "(string \<times> int) list"

text \<open>\<^verbatim>\<open>SELECT col, COUNT(*) FROM clicks WHERE url_short = $1 GROUP BY col\<close>: one row for each
  value of the column among the selected clicks.\<close>

definition group_count :: "(Click \<Rightarrow> string) \<Rightarrow> string \<Rightarrow> pgxpool_Pool \<Rightarrow> (string \<times> int) list" where
  "group_count col short p =
     (let sel = filter (\<lambda>c. URLShort c = short) (clicks p)
      in map (\<lambda>k. (k, int (length (filter (\<lambda>c. col c = k) sel)))) (remdups (map col sel)))"

text \<open>The loop \<^verbatim>\<open>for rows.Next() { ...; stats[key] = count }\<close> over the rows of one query.\<close>

definition scan_stats :: "(string \<times> int) list \<Rightarrow> (string \<times> int) list" where
  "scan_stats rows = fold (\<lambda>row stats. assign (fst row) (snd row) stats) rows []"

definition PostgresRepository_GetClickAnalytics ::
  "string \<Rightarrow> pgxpool_Pool \<Rightarrow> (error + (string \<times> analytics_value) list) \<times> pgxpool_Pool" where
  "PostgresRepository_GetClickAnalytics short p =
     (case pg_roundtrip p of
        (True, p1) \<Rightarrow> (Inl ErrBackend, p1)
      | (False, p1) \<Rightarrow>
     (let totalClicks = int (length (filter (\<lambda>c. URLShort c = short) (clicks p1)))
      in case pg_roundtrip p1 of
        (True, p2) \<Rightarrow> (Inl ErrBackend, p2)
      | (False, p2) \<Rightarrow>
     (let browserStats = scan_stats (group_count Browser short p2)
      in case pg_roundtrip p2 of
        (True, p3) \<Rightarrow> (Inl ErrBackend, p3)
      | (False, p3) \<Rightarrow>
     (let deviceStats = scan_stats (group_count Device short p3)
      in case pg_roundtrip p3 of
        (True, p4) \<Rightarrow> (Inl ErrBackend, p4)
      | (False, p4) \<Rightarrow>
     (let locationStats = scan_stats (group_count Location short p4)
      in (Inr (assign ''locations'' (Stats locationStats)
              (assign ''devices'' (Stats deviceStats)
              (assign ''browsers'' (Stats browserStats)
              (assign ''total_clicks'' (Count totalClicks) [])))), p4))))))"

section \<open>The two collaborators of the service, as interfaces\<close>

text \<open>
  \<^verbatim>\<open>URLRepository\<close> and \<^verbatim>\<open>CacheRepositoryInterface\<close>: a collaborator is the record of its
  methods over its own state. Every method is given the instant of the call. \<open>db_Create\<close>
  has the two results that \<^verbatim>\<open>URLService.CreateShortURL\<close> takes from it.
\<close>

record 'r URLRepository =
  db_Create :: "time \<Rightarrow> URL \<Rightarrow> 'r \<Rightarrow> (error + URL) \<times> 'r"
  db_GetByShort :: "time \<Rightarrow> string \<Rightarrow> 'r \<Rightarrow> (error + URL) \<times> 'r"
  db_GetByOriginal :: "time \<Rightarrow> string \<Rightarrow> 'r \<Rightarrow> (error + URL) \<times> 'r"
  db_GetByCreator :: "time \<Rightarrow> string \<Rightarrow> 'r \<Rightarrow> (error + URL list) \<times> 'r"
  db_IncrementClicks :: "time \<Rightarrow> string \<Rightarrow> 'r \<Rightarrow> error option \<times> 'r"
  db_Delete :: "time \<Rightarrow> string \<Rightarrow> 'r \<Rightarrow> error option \<times> 'r"
  db_DeleteWithCreator :: "time \<Rightarrow> string \<Rightarrow> string \<Rightarrow> 'r \<Rightarrow> error option \<times> 'r"
  db_StoreClick :: "time \<Rightarrow> Click \<Rightarrow> 'r \<Rightarrow> error option \<times> 'r"
  db_GetClicksByShort :: "time \<Rightarrow> string \<Rightarrow> 'r \<Rightarrow> (error + Click list) \<times> 'r"
  db_GetClickAnalytics :: "time \<Rightarrow> string \<Rightarrow> 'r \<Rightarrow> (error + (string \<times> analytics_value) list) \<times> 'r"
  db_HasRecentClick :: "time \<Rightarrow> string \<Rightarrow> string \<Rightarrow> string \<Rightarrow> string \<Rightarrow> 'r \<Rightarrow> (error + bool) \<times> 'r"
  db_UpdateURL :: "time \<Rightarrow> string \<Rightarrow> URL \<Rightarrow> 'r \<Rightarrow> error option \<times> 'r"
  db_UpdateURLWithCreator :: "time \<Rightarrow> string \<Rightarrow> URL \<Rightarrow> string \<Rightarrow> 'r \<Rightarrow> error option \<times> 'r"
  db_LogURLHistory :: "time \<Rightarrow> int \<Rightarrow> string \<Rightarrow> string \<Rightarrow> URL option \<Rightarrow> URL option \<Rightarrow> string \<Rightarrow> 'r \<Rightarrow> error option \<times> 'r"

record 'c CacheRepositoryInterface =
  cache_Set :: "time \<Rightarrow> URL \<Rightarrow> 'c \<Rightarrow> error option \<times> 'c"
  cache_GetByShort :: "time \<Rightarrow> string \<Rightarrow> 'c \<Rightarrow> (error + URL) \<times> 'c"
  cache_GetByOriginal :: "time \<Rightarrow> string \<Rightarrow> 'c \<Rightarrow> (error + URL) \<times> 'c"
  cache_IncrementClicks :: "time \<Rightarrow> string \<Rightarrow> 'c \<Rightarrow> error option \<times> 'c"
  cache_Delete :: "time \<Rightarrow> string \<Rightarrow> 'c \<Rightarrow> error option \<times> 'c"

text \<open>
  Modelled from the spec: \<^verbatim>\<open>Create\<close> as the service calls it, returning the stored record
  with its store-assigned identity. The source has only the version above, which returns
  the error alone; here the row it has just inserted is handed back.
\<close>

definition PostgresRepository_Create_returning :: "URL \<Rightarrow> pgxpool_Pool \<Rightarrow> (error + URL) \<times> pgxpool_Pool" where
  "PostgresRepository_Create_returning url p =
     (case PostgresRepository_Create url p of
        (Some err, p1) \<Rightarrow> (Inl err, p1)
      | (None, p1) \<Rightarrow>
          (case rev (urls p1) of [] \<Rightarrow> (Inl ErrNoRows, p1) | row # _ \<Rightarrow> (Inr row, p1)))"

definition PostgresRepository_impl :: "pgxpool_Pool URLRepository" where
  "PostgresRepository_impl =
     \<lparr>db_Create = (\<lambda>now. PostgresRepository_Create_returning),
      db_GetByShort = PostgresRepository_GetByShort,
      db_GetByOriginal = PostgresRepository_GetByOriginal,
      db_GetByCreator = PostgresRepository_GetByCreator,
      db_IncrementClicks = (\<lambda>now. PostgresRepository_IncrementClicks),
      db_Delete = PostgresRepository_Delete,
      db_DeleteWithCreator = PostgresRepository_DeleteWithCreator,
      db_StoreClick = (\<lambda>now. PostgresRepository_StoreClick),
      db_GetClicksByShort = (\<lambda>now. PostgresRepository_GetClicksByShort),
      db_GetClickAnalytics = (\<lambda>now. PostgresRepository_GetClickAnalytics),
      db_HasRecentClick = PostgresRepository_HasRecentClick,
      db_UpdateURL = PostgresRepository_UpdateURL,
      db_UpdateURLWithCreator = PostgresRepository_UpdateURLWithCreator,
      db_LogURLHistory = PostgresRepository_LogURLHistory\<rparr>"

definition CacheRepository_impl :: "CacheRepository CacheRepositoryInterface" where
  "CacheRepository_impl =
     \<lparr>cache_Set = CacheRepository_Set,
      cache_GetByShort = CacheRepository_GetByShort,
      cache_GetByOriginal = CacheRepository_GetByOriginal,
      cache_IncrementClicks = CacheRepository_IncrementClicks,
      cache_Delete = CacheRepository_Delete\<rparr>"

section \<open>URLService\<close>

text \<open>
  The service holds its two collaborators; \<open>cache = None\<close> is the nil cache that every
  method tests for. The state it works on is the pair of the collaborators' states.
  Log calls have no effect on results and are left out.
\<close>

record ('r, 'c) URLService =
  db :: "'r URLRepository"
  cache :: "'c CacheRepositoryInterface option"

definition NewURLService :: "'r URLRepository \<Rightarrow> 'c CacheRepositoryInterface option \<Rightarrow> ('r, 'c) URLService" where
  "NewURLService d c = \<lparr>db = d, cache = c\<rparr>"

definition URLService_GetByShort ::
  "('r, 'c) URLService \<Rightarrow> time \<Rightarrow> string \<Rightarrow> 'r \<times> 'c \<Rightarrow> (error + URL) \<times> ('r \<times> 'c)" where
  "URLService_GetByShort s now short st = (case st of (r, c) \<Rightarrow>
     (case (case cache s of
              None \<Rightarrow> (None, c)
            | Some ch \<Rightarrow>
                (case cache_GetByShort ch now short c of
                   (Inr foundURL, c1) \<Rightarrow> (Some foundURL, c1)
                 | (Inl err, c1) \<Rightarrow> (None, c1))) of
        (Some foundURL, c1) \<Rightarrow> (Inr foundURL, (r, c1))
      | (None, c1) \<Rightarrow>
          (case db_GetByShort (db s) now short r of
             (Inl err, r1) \<Rightarrow> (Inl err, (r1, c1))
           | (Inr urlRecord, r1) \<Rightarrow>
               (case cache s of
                  None \<Rightarrow> (Inr urlRecord, (r1, c1))
                | Some ch \<Rightarrow>
                    (case cache_Set ch now urlRecord c1 of
                       (Some err, c2) \<Rightarrow> (Inl err, (r1, c2))
                     | (None, c2) \<Rightarrow> (Inr urlRecord, (r1, c2)))))))"

definition URLService_GetByOriginal ::
  "('r, 'c) URLService \<Rightarrow> time \<Rightarrow> string \<Rightarrow> 'r \<times> 'c \<Rightarrow> (error + URL) \<times> ('r \<times> 'c)" where
  "URLService_GetByOriginal s now original st = (case st of (r, c) \<Rightarrow>
     (case (case cache s of
              None \<Rightarrow> (None, c)
            | Some ch \<Rightarrow>
                (case cache_GetByOriginal ch now original c of
                   (Inr urlData, c1) \<Rightarrow> (Some urlData, c1)
                 | (Inl err, c1) \<Rightarrow> (None, c1))) of
        (Some urlData, c1) \<Rightarrow> (Inr urlData, (r, c1))
      | (None, c1) \<Rightarrow>
          (case db_GetByOriginal (db s) now original r of
             (Inl err, r1) \<Rightarrow> (Inl err, (r1, c1))
           | (Inr urlRecord, r1) \<Rightarrow>
               (case cache s of
                  None \<Rightarrow> (Inr urlRecord, (r1, c1))
                | Some ch \<Rightarrow>
                    (case cache_Set ch now urlRecord c1 of
                       (Some err, c2) \<Rightarrow> (Inl err, (r1, c2))
                     | (None, c2) \<Rightarrow> (Inr urlRecord, (r1, c2)))))))"

definition URLService_GetByCreator ::
  "('r, 'c) URLService \<Rightarrow> time \<Rightarrow> string \<Rightarrow> 'r \<times> 'c \<Rightarrow> (error + URL list) \<times> ('r \<times> 'c)" where
  "URLService_GetByCreator s now creatorReference st = (case st of (r, c) \<Rightarrow>
     (case db_GetByCreator (db s) now creatorReference r of (res, r1) \<Rightarrow> (res, (r1, c))))"

subsection \<open>Short-code generation\<close>

text \<open>\<^verbatim>\<open>base64.URLEncoding.EncodeToString\<close>: the URL-safe alphabet, padded with \<^verbatim>\<open>=\<close>.\<close>

definition encodeURL :: string where
  "encodeURL = ''ABCDEFGHIJKLMNOPQRSTUVWXYZabcdefghijklmnopqrstuvwxyz0123456789-_''"

fun EncodeToString :: "8 word list \<Rightarrow> string" where
  "EncodeToString (a # b # c # rest) =
     [encodeURL ! (unat a div 4),
      encodeURL ! ((unat a mod 4) * 16 + unat b div 16),
      encodeURL ! ((unat b mod 16) * 4 + unat c div 64),
      encodeURL ! (unat c mod 64)] @ EncodeToString rest"
| "EncodeToString [a, b] =
     [encodeURL ! (unat a div 4),
      encodeURL ! ((unat a mod 4) * 16 + unat b div 16),
      encodeURL ! ((unat b mod 16) * 4),
      CHR ''='']"
| "EncodeToString [a] =
     [encodeURL ! (unat a div 4),
      encodeURL ! ((unat a mod 4) * 16),
      CHR ''='', CHR ''='']"
| "EncodeToString [] = []"

text \<open>\<^verbatim>\<open>strings.ReplaceAll(encoded, "=", "")[:length]\<close>; the slice panics beyond the string.\<close>

definition strip_and_cut :: "string \<Rightarrow> nat \<Rightarrow> error + string" where
  "strip_and_cut encoded n =
     (let stripped = filter (\<lambda>ch. ch \<noteq> CHR ''='') encoded
      in if n > length stripped then Inl PanicSliceBounds else Inr (take n stripped))"

text \<open>
  \<open>rnd i\<close> is what the call of \<^verbatim>\<open>rand.Read\<close> in attempt \<open>i\<close> gives: an error, or the
  bytes it fills the buffer with, by position.
\<close>

type_synonym entropy = "nat \<Rightarrow> error + (nat \<Rightarrow> 8 word)"

function generateShortURL_from ::
  "('r, 'c) URLService \<Rightarrow> time \<Rightarrow> entropy \<Rightarrow> nat \<Rightarrow> nat \<Rightarrow> 'r \<times> 'c \<Rightarrow> (error + string) \<times> ('r \<times> 'c)" where
  "generateShortURL_from s now rnd n i st =
     (if i < 5 then
        (case rnd i of
           Inl err \<Rightarrow> (Inl err, st)
         | Inr bytes \<Rightarrow>
             (case strip_and_cut (EncodeToString (map bytes [0..<n])) n of
                Inl err \<Rightarrow> (Inl err, st)
              | Inr short \<Rightarrow>
                  (case URLService_GetByShort s now short st of
                     (Inl err, st1) \<Rightarrow>
                       if err = ErrURLNotFound then (Inr short, st1)
                       else generateShortURL_from s now rnd n (i + 1) st1
                   | (Inr found, st1) \<Rightarrow> generateShortURL_from s now rnd n (i + 1) st1)))
      else (Inl ErrURLExists, st))"
  by pat_completeness auto
termination
  by (relation "measure (\<lambda>(s, now, rnd, n, i, st). 5 - i)") auto

declare generateShortURL_from.simps [simp del]

definition generateShortURL ::
  "('r, 'c) URLService \<Rightarrow> time \<Rightarrow> entropy \<Rightarrow> nat \<Rightarrow> 'r \<times> 'c \<Rightarrow> (error + string) \<times> ('r \<times> 'c)" where
  "generateShortURL s now rnd n st = generateShortURL_from s now rnd n 0 st"

text \<open>
  The condition of the specification ``all attempts find the candidate taken'': each of the
  \<open>k\<close> attempts from number \<open>i\<close> on draws its bytes, cuts its candidate, and the read path
  returns a record for it.
\<close>

fun attempts_all_taken ::
  "('r, 'c) URLService \<Rightarrow> time \<Rightarrow> entropy \<Rightarrow> nat \<Rightarrow> nat \<Rightarrow> nat \<Rightarrow> 'r \<times> 'c \<Rightarrow> bool" where
  "attempts_all_taken s now rnd n 0 i st = True"
| "attempts_all_taken s now rnd n (Suc k) i st =
     (case rnd i of
        Inl err \<Rightarrow> False
      | Inr bytes \<Rightarrow>
          (case strip_and_cut (EncodeToString (map bytes [0..<n])) n of
             Inl err \<Rightarrow> False
           | Inr short \<Rightarrow>
               (case URLService_GetByShort s now short st of
                  (Inl err, st1) \<Rightarrow> False
                | (Inr found, st1) \<Rightarrow> attempts_all_taken s now rnd n k (i + 1) st1)))"

text \<open>
  The state after the first \<open>k\<close> attempts when each of them was given up for the next one:
  it drew its bytes, cut its candidate, and the read path answered anything but not-found.
\<close>

fun attempts_retried ::
  "('r, 'c) URLService \<Rightarrow> time \<Rightarrow> entropy \<Rightarrow> nat \<Rightarrow> nat \<Rightarrow> 'r \<times> 'c \<Rightarrow> ('r \<times> 'c) option" where
  "attempts_retried s now rnd n 0 st = Some st"
| "attempts_retried s now rnd n (Suc k) st =
     (case attempts_retried s now rnd n k st of
        None \<Rightarrow> None
      | Some stk \<Rightarrow>
          (case rnd k of
             Inl err \<Rightarrow> None
           | Inr bytes \<Rightarrow>
               (case strip_and_cut (EncodeToString (map bytes [0..<n])) n of
                  Inl err \<Rightarrow> None
                | Inr short \<Rightarrow>
                    (case URLService_GetByShort s now short stk of
                       (Inl err, st1) \<Rightarrow> if err = ErrURLNotFound then None else Some st1
                     | (Inr found, st1) \<Rightarrow> Some st1))))"

subsection \<open>CreateShortURL\<close>

text \<open>
  \<^verbatim>\<open>url.ParseRequestURI\<close> belongs to the standard library; the service is given the
  validator as the test \<open>ParseRequestURI\<close>, true where the parse returns no error. The
  library's own test is \<open>url_ParseRequestURI\<close>, further down.
\<close>

definition URLService_CreateShortURL ::
  "(string \<Rightarrow> bool) \<Rightarrow> ('r, 'c) URLService \<Rightarrow> time \<Rightarrow> entropy \<Rightarrow> string \<Rightarrow> string \<Rightarrow> string \<Rightarrow> duration \<Rightarrow> string
   \<Rightarrow> 'r \<times> 'c \<Rightarrow> (error + URL) \<times> ('r \<times> 'c)" where
  "URLService_CreateShortURL ParseRequestURI s now rnd originalURL customShort title expireAfter creatorReference st =
     (if \<not> ParseRequestURI originalURL then (Inl ErrInvalidURL, st)
      else
        (case (if customShort = [] then generateShortURL s now rnd 6 st
               else (case URLService_GetByShort s now customShort st of
                       (Inr found, st1) \<Rightarrow> (Inl ErrURLExists, st1)
                     | (Inl err, st1) \<Rightarrow>
                         if err \<noteq> ErrURLNotFound then (Inl err, st1) else (Inr customShort, st1))) of
           (Inl err, st1) \<Rightarrow> (Inl err, st1)
         | (Inr short, st1) \<Rightarrow>
             (let expiresAt = (if expireAfter > 0 then now + expireAfter else 0);
                  newURL = NewURL now originalURL short title expiresAt creatorReference
              in case st1 of (r1, c1) \<Rightarrow>
                 (case db_Create (db s) now newURL r1 of
                    (Inl err, r2) \<Rightarrow> (Inl err, (r2, c1))
                  | (Inr createdURL, r2) \<Rightarrow>
                      (case cache s of
                         None \<Rightarrow> (Inr createdURL, (r2, c1))
                       | Some ch \<Rightarrow>
                           (case cache_Set ch now createdURL c1 of
                              (Some err, c2) \<Rightarrow> (Inl err, (r2, c2))
                            | (None, c2) \<Rightarrow> (Inr createdURL, (r2, c2))))))))"

subsection \<open>IncrementClicks, Delete, DeleteWithCreator\<close>

definition URLService_IncrementClicks ::
  "('r, 'c) URLService \<Rightarrow> time \<Rightarrow> string \<Rightarrow> 'r \<times> 'c \<Rightarrow> error option \<times> ('r \<times> 'c)" where
  "URLService_IncrementClicks s now short st = (case st of (r, c) \<Rightarrow>
     (case db_IncrementClicks (db s) now short r of
        (Some err, r1) \<Rightarrow> (Some err, (r1, c))
      | (None, r1) \<Rightarrow>
          (case cache s of
             None \<Rightarrow> (None, (r1, c))
           | Some ch \<Rightarrow> (None, (r1, snd (cache_IncrementClicks ch now short c))))))"

definition URLService_Delete ::
  "('r, 'c) URLService \<Rightarrow> time \<Rightarrow> string \<Rightarrow> 'r \<times> 'c \<Rightarrow> error option \<times> ('r \<times> 'c)" where
  "URLService_Delete s now short st =
     (case URLService_GetByShort s now short st of
        (Inl err, st1) \<Rightarrow> (Some err, st1)
      | (Inr url, (r1, c1)) \<Rightarrow>
          (let r2 = snd (db_LogURLHistory (db s) now (ID url) short ''delete'' (Some url) None [] r1)
           in case db_Delete (db s) now short r2 of
                (Some err, r3) \<Rightarrow> (Some err, (r3, c1))
              | (None, r3) \<Rightarrow>
                  (case cache s of
                     None \<Rightarrow> (None, (r3, c1))
                   | Some ch \<Rightarrow> (None, (r3, snd (cache_Delete ch now short c1))))))"

definition URLService_DeleteWithCreator ::
  "('r, 'c) URLService \<Rightarrow> time \<Rightarrow> string \<Rightarrow> string \<Rightarrow> 'r \<times> 'c \<Rightarrow> error option \<times> ('r \<times> 'c)" where
  "URLService_DeleteWithCreator s now short creatorReference st =
     (case URLService_GetByShort s now short st of
        (Inl err, st1) \<Rightarrow> (Some err, st1)
      | (Inr url, (r1, c1)) \<Rightarrow>
          (let r2 = snd (db_LogURLHistory (db s) now (ID url) short ''delete'' (Some url) None creatorReference r1)
           in case db_DeleteWithCreator (db s) now short creatorReference r2 of
                (Some err, r3) \<Rightarrow> (Some err, (r3, c1))
              | (None, r3) \<Rightarrow>
                  (case cache s of
                     None \<Rightarrow> (None, (r3, c1))
                   | Some ch \<Rightarrow> (None, (r3, snd (cache_Delete ch now short c1))))))"

subsection \<open>UpdateURL, UpdateURLWithCreator\<close>

text \<open>The record that both updates build from the existing one, with its expiration.\<close>

definition updatedURL_of :: "time \<Rightarrow> URL \<Rightarrow> string \<Rightarrow> string \<Rightarrow> string \<Rightarrow> duration \<Rightarrow> URL" where
  "updatedURL_of now existingURL short title originalURL expireAfter =
     (let updatedURL =
            \<lparr>ID = ID existingURL, Original = originalURL, Short = short, Title = title,
             CreatedAt = CreatedAt existingURL, ExpiresAt = 0, Clicks = Clicks existingURL,
             CreatorReference = CreatorReference existingURL, DeletedAt = None\<rparr>
      in if expireAfter > 0 then updatedURL\<lparr>ExpiresAt := now + expireAfter\<rparr>
         else updatedURL\<lparr>ExpiresAt := ExpiresAt existingURL\<rparr>)"

definition URLService_UpdateURL ::
  "(string \<Rightarrow> bool) \<Rightarrow> ('r, 'c) URLService \<Rightarrow> time \<Rightarrow> string \<Rightarrow> string \<Rightarrow> string \<Rightarrow> duration
   \<Rightarrow> 'r \<times> 'c \<Rightarrow> (error + URL) \<times> ('r \<times> 'c)" where
  "URLService_UpdateURL ParseRequestURI s now short title originalURL expireAfter st =
     (case URLService_GetByShort s now short st of
        (Inl err, st1) \<Rightarrow> (Inl err, st1)
      | (Inr existingURL, (r1, c1)) \<Rightarrow>
          if originalURL \<noteq> Original existingURL \<and> \<not> ParseRequestURI originalURL
          then (Inl ErrInvalidURL, (r1, c1))
          else
            (let updatedURL = updatedURL_of now existingURL short title originalURL expireAfter;
                 r2 = snd (db_LogURLHistory (db s) now (ID existingURL) short ''update''
                             (Some existingURL) (Some updatedURL) [] r1)
             in case db_UpdateURL (db s) now short updatedURL r2 of
                  (Some err, r3) \<Rightarrow> (Inl err, (r3, c1))
                | (None, r3) \<Rightarrow>
                    (case cache s of
                       None \<Rightarrow> (Inr updatedURL, (r3, c1))
                     | Some ch \<Rightarrow> (Inr updatedURL, (r3, snd (cache_Set ch now updatedURL c1))))))"

definition URLService_UpdateURLWithCreator ::
  "(string \<Rightarrow> bool) \<Rightarrow> ('r, 'c) URLService \<Rightarrow> time \<Rightarrow> string \<Rightarrow> string \<Rightarrow> string \<Rightarrow> duration \<Rightarrow> string
   \<Rightarrow> 'r \<times> 'c \<Rightarrow> (error + URL) \<times> ('r \<times> 'c)" where
  "URLService_UpdateURLWithCreator ParseRequestURI s now short title originalURL expireAfter creatorReference st =
     (case URLService_GetByShort s now short st of
        (Inl err, st1) \<Rightarrow> (Inl err, st1)
      | (Inr existingURL, (r1, c1)) \<Rightarrow>
          if originalURL \<noteq> Original existingURL \<and> \<not> ParseRequestURI originalURL
          then (Inl ErrInvalidURL, (r1, c1))
          else
            (let updatedURL = updatedURL_of now existingURL short title originalURL expireAfter;
                 r2 = snd (db_LogURLHistory (db s) now (ID existingURL) short ''update''
                             (Some existingURL) (Some updatedURL) creatorReference r1)
             in case db_UpdateURLWithCreator (db s) now short updatedURL creatorReference r2 of
                  (Some err, r3) \<Rightarrow> (Inl err, (r3, c1))
                | (None, r3) \<Rightarrow>
                    (case cache s of
                       None \<Rightarrow> (Inr updatedURL, (r3, c1))
                     | Some ch \<Rightarrow> (Inr updatedURL, (r3, snd (cache_Set ch now updatedURL c1))))))"

subsection \<open>RecordClick and the analytics reads\<close>

definition URLService_RecordClick ::
  "('r, 'c) URLService \<Rightarrow> time \<Rightarrow> string \<Rightarrow> string \<Rightarrow> string \<Rightarrow> string \<Rightarrow> string
   \<Rightarrow> 'r \<times> 'c \<Rightarrow> error option \<times> ('r \<times> 'c)" where
  "URLService_RecordClick s now short ip location browser device st = (case st of (r, c) \<Rightarrow>
     (case db_HasRecentClick (db s) now short ip browser device r of
        (Inl err, r1) \<Rightarrow> (Some err, (r1, c))
      | (Inr hasRecentClick, r1) \<Rightarrow>
          if hasRecentClick then (Some ErrRecentClick, (r1, c))
          else
            (case URLService_GetByShort s now short (r1, c) of
               (Inl err, st2) \<Rightarrow> (Some err, st2)
             | (Inr shortURL, (r2, c2)) \<Rightarrow>
                 (let click = NewClick now (ID shortURL) short ip location browser device
                  in case db_StoreClick (db s) now click r2 of
                       (res, r3) \<Rightarrow> (res, (r3, c2))))))"

definition URLService_GetClicksByShort ::
  "('r, 'c) URLService \<Rightarrow> time \<Rightarrow> string \<Rightarrow> 'r \<times> 'c \<Rightarrow> (error + Click list) \<times> ('r \<times> 'c)" where
  "URLService_GetClicksByShort s now short st = (case st of (r, c) \<Rightarrow>
     (case db_GetClicksByShort (db s) now short r of (res, r1) \<Rightarrow> (res, (r1, c))))"

definition URLService_GetClickAnalytics ::
  "('r, 'c) URLService \<Rightarrow> time \<Rightarrow> string \<Rightarrow> 'r \<times> 'c
   \<Rightarrow> (error + (string \<times> analytics_value) list) \<times> ('r \<times> 'c)" where
  "URLService_GetClickAnalytics s now short st = (case st of (r, c) \<Rightarrow>
     (case db_GetClickAnalytics (db s) now short r of (res, r1) \<Rightarrow> (res, (r1, c))))"

section \<open>url.ParseRequestURI (package net/url)\<close>

text \<open>
  The validator that the service calls, \<^verbatim>\<open>url.ParseRequestURI\<close>, is \<^verbatim>\<open>parse(rawURL, true)\<close> of
  the standard library. Only its error matters to the service, so the functions below
  return the truth value ``no error'': \<open>url_ParseRequestURI\<close> follows \<^verbatim>\<open>parse\<close> with
  \<^verbatim>\<open>viaRequest\<close> true, \<open>getScheme\<close> follows \<^verbatim>\<open>getScheme\<close> (the bytes seen so far stand for
  the index), \<open>unescape_ok\<close> the checks of \<^verbatim>\<open>unescape\<close>, \<open>parseAuthority_ok\<close> and \<open>parseHost_ok\<close>
  those of \<^verbatim>\<open>parseAuthority\<close> and \<^verbatim>\<open>parseHost\<close>, and \<open>setPath\<close> fails exactly when \<^verbatim>\<open>unescape\<close>
  does in the mode \<^verbatim>\<open>encodePath\<close>.
\<close>

definition is_letter :: "char \<Rightarrow> bool" where
  "is_letter c \<longleftrightarrow> (97 \<le> (of_char c :: nat) \<and> (of_char c :: nat) \<le> 122)
                  \<or> (65 \<le> (of_char c :: nat) \<and> (of_char c :: nat) \<le> 90)"

definition is_digit :: "char \<Rightarrow> bool" where
  "is_digit c \<longleftrightarrow> 48 \<le> (of_char c :: nat) \<and> (of_char c :: nat) \<le> 57"

definition stringContainsCTLByte :: "string \<Rightarrow> bool" where
  "stringContainsCTLByte s = list_ex (\<lambda>b. (of_char b :: nat) < 32 \<or> (of_char b :: nat) = 127) s"

fun getScheme_loop :: "string \<Rightarrow> string \<Rightarrow> string \<Rightarrow> (string \<times> string) option" where
  "getScheme_loop rawURL seen [] = Some ([], rawURL)"
| "getScheme_loop rawURL seen (c # cs) =
     (if is_letter c then getScheme_loop rawURL (seen @ [c]) cs
      else if is_digit c \<or> c = CHR ''+'' \<or> c = CHR ''-'' \<or> c = CHR ''.'' then
        (if seen = [] then Some ([], rawURL) else getScheme_loop rawURL (seen @ [c]) cs)
      else if c = CHR '':'' then
        (if seen = [] then None else Some (seen, cs))
      else Some ([], rawURL))"

definition getScheme :: "string \<Rightarrow> (string \<times> string) option" where
  "getScheme rawURL = getScheme_loop rawURL [] rawURL"

datatype encoding = encodePath | encodeUserPassword | encodeHost | encodeZone

definition ishex :: "char \<Rightarrow> bool" where
  "ishex c \<longleftrightarrow> is_digit c
       \<or> (97 \<le> (of_char c :: nat) \<and> (of_char c :: nat) \<le> 102)
       \<or> (65 \<le> (of_char c :: nat) \<and> (of_char c :: nat) \<le> 70)"

definition unhex :: "char \<Rightarrow> nat" where
  "unhex c = (if is_digit c then of_char c - 48
              else if 97 \<le> (of_char c :: nat) \<and> (of_char c :: nat) \<le> 102 then of_char c - 97 + 10
              else if 65 \<le> (of_char c :: nat) \<and> (of_char c :: nat) \<le> 70 then of_char c - 65 + 10
              else 0)"

definition shouldEscape :: "char \<Rightarrow> encoding \<Rightarrow> bool" where
  "shouldEscape c mode =
     (if is_letter c \<or> is_digit c then False
      else if (mode = encodeHost \<or> mode = encodeZone)
              \<and> c \<in> set (''!$&()*+,;=:[]<>'' @ [CHR 0x27, CHR 0x22]) then False
      else if c \<in> set ''-_.~'' then False
      else if c \<in> set ''$&+,/:;=?@'' then
        (case mode of
           encodePath \<Rightarrow> c = CHR ''?''
         | encodeUserPassword \<Rightarrow> c \<in> set ''@/?:''
         | _ \<Rightarrow> True)
      else True)"

fun unescape_ok :: "encoding \<Rightarrow> string \<Rightarrow> bool" where
  "unescape_ok mode [] = True"
| "unescape_ok mode (c # cs) =
     (if c = CHR ''%'' then
        (case cs of
           h1 # h2 # rest \<Rightarrow>
             if \<not> ishex h1 \<or> \<not> ishex h2 then False
             else if mode = encodeHost \<and> unhex h1 < 8 \<and> [h1, h2] \<noteq> ''25'' then False
             else if mode = encodeZone \<and> [h1, h2] \<noteq> ''25'' \<and> unhex h1 * 16 + unhex h2 \<noteq> 32
                     \<and> shouldEscape (char_of (unhex h1 * 16 + unhex h2)) encodeHost then False
             else unescape_ok mode rest
         | _ \<Rightarrow> False)
      else if (mode = encodeHost \<or> mode = encodeZone) \<and> (of_char c :: nat) < 128 \<and> shouldEscape c mode
        then False
      else unescape_ok mode cs)"

definition validOptionalPort :: "string \<Rightarrow> bool" where
  "validOptionalPort port =
     (case port of [] \<Rightarrow> True
      | c # ds \<Rightarrow> c = CHR '':'' \<and> list_all is_digit ds)"

definition validUserinfo :: "string \<Rightarrow> bool" where
  "validUserinfo s = list_all (\<lambda>r. is_letter r \<or> is_digit r
                                  \<or> r \<in> set (''-._:~!$&()*+,;=%@'' @ [CHR 0x27])) s"

text \<open>\<^verbatim>\<open>strings.LastIndex\<close>: the text before and after the last occurrence of a byte; none
  when it does not occur.\<close>

definition cut_last :: "char \<Rightarrow> string \<Rightarrow> (string \<times> string) option" where
  "cut_last c s =
     (if c \<in> set s
      then Some (rev (tl (dropWhile (\<lambda>x. x \<noteq> c) (rev s))), rev (takeWhile (\<lambda>x. x \<noteq> c) (rev s)))
      else None)"

fun find_25 :: "string \<Rightarrow> nat \<Rightarrow> nat option" where
  "find_25 [] i = None"
| "find_25 (c # cs) i = (if take 3 (c # cs) = ''%25'' then Some i else find_25 cs (i + 1))"

definition parseHost_ok :: "string \<Rightarrow> bool" where
  "parseHost_ok host =
     (if take 1 host = ''['' then
        (case cut_last CHR '']'' host of
           None \<Rightarrow> False
         | Some (front, colonPort) \<Rightarrow>
             if \<not> validOptionalPort colonPort then False
             else
               (case find_25 front 0 of
                  Some zone \<Rightarrow>
                    unescape_ok encodeHost (take zone front)
                    \<and> unescape_ok encodeZone (drop zone front)
                    \<and> unescape_ok encodeHost (CHR '']'' # colonPort)
                | None \<Rightarrow> unescape_ok encodeHost host))
      else
        (case cut_last CHR '':'' host of
           Some (front, port) \<Rightarrow>
             if \<not> validOptionalPort (CHR '':'' # port) then False else unescape_ok encodeHost host
         | None \<Rightarrow> unescape_ok encodeHost host))"

definition parseAuthority_ok :: "string \<Rightarrow> bool" where
  "parseAuthority_ok authority =
     (case cut_last CHR ''@'' authority of
        None \<Rightarrow> parseHost_ok authority
      | Some (userinfo, host) \<Rightarrow>
          if \<not> parseHost_ok host then False
          else if \<not> validUserinfo userinfo then False
          else if CHR '':'' \<notin> set userinfo then unescape_ok encodeUserPassword userinfo
          else unescape_ok encodeUserPassword (takeWhile (\<lambda>x. x \<noteq> CHR '':'') userinfo)
               \<and> unescape_ok encodeUserPassword (tl (dropWhile (\<lambda>x. x \<noteq> CHR '':'') userinfo)))"

definition url_ParseRequestURI :: "string \<Rightarrow> bool" where
  "url_ParseRequestURI rawURL =
     (if stringContainsCTLByte rawURL then False
      else if rawURL = [] then False
      else if rawURL = ''*'' then True
      else
        (case getScheme rawURL of
           None \<Rightarrow> False
         | Some (scheme, rest0) \<Rightarrow>
             (let rest = (if rest0 \<noteq> [] \<and> last rest0 = CHR ''?'' \<and> count_list rest0 CHR ''?'' = 1
                          then butlast rest0
                          else takeWhile (\<lambda>x. x \<noteq> CHR ''?'') rest0)
              in if take 1 rest \<noteq> ''/'' then scheme \<noteq> []
                 else if scheme \<noteq> [] \<and> take 2 rest = ''//'' then
                   (let authority = takeWhile (\<lambda>x. x \<noteq> CHR ''/'') (drop 2 rest);
                        path = dropWhile (\<lambda>x. x \<noteq> CHR ''/'') (drop 2 rest)
                    in parseAuthority_ok authority \<and> unescape_ok encodePath path)
                 else unescape_ok encodePath rest)))"

text \<open>
  In the words of the specification an original must be an absolute URL; the least that
  this asks is that the string names a scheme before a colon.
\<close>

definition names_a_scheme :: "string \<Rightarrow> bool" where
  "names_a_scheme rawURL = (case getScheme rawURL of None \<Rightarrow> False | Some (scheme, rest) \<Rightarrow> scheme \<noteq> [])"

section \<open>Example states\<close>

text \<open>One stored record, owned by \<open>A\<close>, that never expires; the states built around it.\<close>

definition example_row :: URL where
  "example_row = \<lparr>ID = 1, Original = ''https://example.com'', Short = ''abc123'', Title = ''Example'',
     CreatedAt = 10, ExpiresAt = 0, Clicks = 5, CreatorReference = ''A'', DeletedAt = None\<rparr>"

definition example_pool :: pgxpool_Pool where
  "example_pool = \<lparr>urls = [example_row], clicks = [], url_history = [], urls_id_seq = 2,
     clicks_id_seq = 1, url_history_id_seq = 1, pfaults = []\<rparr>"

definition empty_cache :: CacheRepository where
  "empty_cache = \<lparr>client = \<lparr>entries = Map.empty, rfaults = []\<rparr>, ttl = 24 * Hour\<rparr>"

text \<open>A cache whose first round trip succeeds and whose second fails.\<close>

definition failing_set_cache :: CacheRepository where
  "failing_set_cache = \<lparr>client = \<lparr>entries = Map.empty, rfaults = [False, True]\<rparr>, ttl = 24 * Hour\<rparr>"

text \<open>A table whose only row has been soft-deleted.\<close>

definition soft_deleted_pool :: pgxpool_Pool where
  "soft_deleted_pool = \<lparr>urls = [example_row\<lparr>DeletedAt := Some 50\<rparr>], clicks = [], url_history = [],
     urls_id_seq = 2, clicks_id_seq = 1, url_history_id_seq = 1, pfaults = []\<rparr>"

definition example_service :: "(pgxpool_Pool, CacheRepository) URLService" where
  "example_service = NewURLService PostgresRepository_impl (Some CacheRepository_impl)"

text \<open>A validator for the examples: it accepts the strings that start with \<^verbatim>\<open>https://\<close>.\<close>

definition example_parse :: "string \<Rightarrow> bool" where
  "example_parse u \<longleftrightarrow> take 8 u = ''https://''"

text \<open>The same record with an expiration in the past of the instant 100, and its table.\<close>

definition expired_row :: URL where
  "expired_row = example_row\<lparr>ExpiresAt := 50\<rparr>"

definition expired_pool :: pgxpool_Pool where
  "expired_pool = example_pool\<lparr>urls := [expired_row]\<rparr>"

text \<open>Three clicks on the record, from two visitors.\<close>

definition clicked_pool :: pgxpool_Pool where
  "clicked_pool = example_pool\<lparr>clicks :=
     [\<lparr>ClickID = 1, URLID = 1, URLShort = ''abc123'', IP = ''1.2.3.4'', Location = ''ID'',
       Browser = ''Chrome'', Device = ''Desktop'', Timestamp = 100\<rparr>,
      \<lparr>ClickID = 2, URLID = 1, URLShort = ''abc123'', IP = ''5.6.7.8'', Location = ''US'',
       Browser = ''Firefox'', Device = ''Desktop'', Timestamp = 200\<rparr>,
      \<lparr>ClickID = 3, URLID = 1, URLShort = ''abc123'', IP = ''1.2.3.4'', Location = ''ID'',
       Browser = ''Chrome'', Device = ''Mobile'', Timestamp = 300\<rparr>],
     clicks_id_seq := 4\<rparr>"

text \<open>An entropy source that fills every buffer with zero bytes, whose code is \<^verbatim>\<open>AAAAAA\<close>,
  and a table in which that code is taken.\<close>

definition zero_entropy :: entropy where
  "zero_entropy = (\<lambda>i. Inr (\<lambda>j. 0))"

definition taken_pool :: pgxpool_Pool where
  "taken_pool = example_pool\<lparr>urls := [example_row\<lparr>Short := ''AAAAAA''\<rparr>]\<rparr>"

text \<open>A cache that was given the expiring record at the instant 10.\<close>

definition stale_cache :: CacheRepository where
  "stale_cache = snd (CacheRepository_Set 10 expired_row empty_cache)"

text \<open>An entropy source whose first draw is all zero bytes and whose later draws are all
  \<^verbatim>\<open>0xff\<close> bytes, with the code \<^verbatim>\<open>______\<close>.\<close>

definition two_step_entropy :: entropy where
  "two_step_entropy = (\<lambda>i. if i = 0 then Inr (\<lambda>j. 0) else Inr (\<lambda>j. 255))"

text \<open>
  Two histories of the service. In the first the record is read through at 10 and given an
  expiration of 50 by \<open>UpdateURL\<close> at 20, whose cache write is the fifth round trip and
  fails. In the second no round trip fails: the record is read through at 10, and
  \<open>UpdateURLWithCreator\<close> at 20 gives it another original and the expiration 50.
\<close>

definition fifth_trip_fails_cache :: CacheRepository where
  "fifth_trip_fails_cache =
     \<lparr>client = \<lparr>entries = Map.empty, rfaults = [False, False, False, False, True]\<rparr>, ttl = 24 * Hour\<rparr>"

definition after_lost_write :: "pgxpool_Pool \<times> CacheRepository" where
  "after_lost_write =
     snd (URLService_UpdateURL url_ParseRequestURI example_service 20 ''abc123'' ''Example''
            ''https://example.com'' 30
            (snd (URLService_GetByShort example_service 10 ''abc123'' (example_pool, fifth_trip_fails_cache))))"

definition after_moved_original :: "pgxpool_Pool \<times> CacheRepository" where
  "after_moved_original =
     snd (URLService_UpdateURLWithCreator url_ParseRequestURI example_service 20 ''abc123'' ''Example''
            ''https://example.org'' 30 ''A''
            (snd (URLService_GetByShort example_service 10 ''abc123'' (example_pool, empty_cache))))"

section \<open>Unfolding rules\<close>

lemmas impl_defs = example_service_def NewURLService_def PostgresRepository_impl_def CacheRepository_impl_def
lemmas pg_defs = PostgresRepository_GetByShort_def PostgresRepository_GetByOriginal_def query_row_def pg_roundtrip_def
  PostgresRepository_Create_def insert_url_def
lemmas cache_defs = CacheRepository_GetByShort_def CacheRepository_GetByOriginal_def CacheRepository_Set_def
  client_Get_def client_Set_def client_Del_def redis_roundtrip_def visible_def json_Marshal_def
lemmas ex_defs = example_row_def example_pool_def empty_cache_def

section \<open>CreateShortURL validates first\<close>

lemma getScheme_loop_no_scheme:
  "getScheme_loop rawURL seen cs = Some (scheme, rest) \<Longrightarrow> scheme = [] \<Longrightarrow> rest = rawURL"
  by (induction rawURL seen cs rule: getScheme_loop.induct) (auto split: if_splits)

lemma ParseRequestURI_accepts_only:
  assumes "url_ParseRequestURI rawURL"
  shows "rawURL = ''*'' \<or> names_a_scheme rawURL \<or> take 1 rawURL = ''/''"
proof (cases "rawURL = ''*''")
  case True
  then show ?thesis by simp
next
  case False
  with assms obtain scheme rest0 where g: "getScheme rawURL = Some (scheme, rest0)"
    by (auto simp: url_ParseRequestURI_def split: if_splits option.splits)
  show ?thesis
  proof (cases "scheme = []")
    case False
    with g show ?thesis by (simp add: names_a_scheme_def)
  next
    case True
    with g have r: "rest0 = rawURL"
      unfolding getScheme_def by (rule getScheme_loop_no_scheme)
    let ?rest = "if rest0 \<noteq> [] \<and> last rest0 = CHR ''?'' \<and> count_list rest0 CHR ''?'' = 1
                 then butlast rest0 else takeWhile (\<lambda>x. x \<noteq> CHR ''?'') rest0"
    from assms g True \<open>rawURL \<noteq> ''*''\<close> have "take 1 ?rest = ''/''"
      by (auto simp: url_ParseRequestURI_def Let_def split: if_splits)
    then have "take 1 rest0 = ''/''"
      by (cases rest0) (auto split: if_splits)
    with r show ?thesis by simp
  qed
qed

text \<open>
  C8. \<open>CreateShortURL\<close> validates its original with \<^verbatim>\<open>url.ParseRequestURI\<close> before
  anything else: an original that the parse rejects gives \<open>ErrInvalidURL\<close>, and the states of
  the repository and of the cache are the ones it was given, so nothing has been resolved,
  written or cached. The parse rejects every original that is not \<^verbatim>\<open>*\<close>, names no scheme
  and does not start with a slash, and every original that is empty or holds a control
  byte.
\<close>

theorem CreateShortURL_invalid_url_first:
  "(\<not> url_ParseRequestURI originalURL \<longrightarrow>
      URLService_CreateShortURL url_ParseRequestURI s now rnd originalURL customShort title expireAfter
        creatorReference st = (Inl ErrInvalidURL, st))
   \<and> (originalURL \<noteq> ''*'' \<and> \<not> names_a_scheme originalURL \<and> take 1 originalURL \<noteq> ''/'' \<longrightarrow>
        \<not> url_ParseRequestURI originalURL)
   \<and> (originalURL = [] \<or> stringContainsCTLByte originalURL \<longrightarrow> \<not> url_ParseRequestURI originalURL)"
proof (intro conjI impI)
  assume "\<not> url_ParseRequestURI originalURL"
  then show "URLService_CreateShortURL url_ParseRequestURI s now rnd originalURL customShort title expireAfter
        creatorReference st = (Inl ErrInvalidURL, st)"
    by (simp add: URLService_CreateShortURL_def)
next
  assume "originalURL \<noteq> ''*'' \<and> \<not> names_a_scheme originalURL \<and> take 1 originalURL \<noteq> ''/''"
  then show "\<not> url_ParseRequestURI originalURL"
    using ParseRequestURI_accepts_only [of originalURL] by blast
next
  assume "originalURL = [] \<or> stringContainsCTLByte originalURL"
  then show "\<not> url_ParseRequestURI originalURL"
    by (auto simp: url_ParseRequestURI_def)
qed

lemmas parse_defs = url_ParseRequestURI_def stringContainsCTLByte_def getScheme_def names_a_scheme_def
  is_letter_def is_digit_def Let_def

theorem CreateShortURL_invalid_url_first_witness:
  "\<not> url_ParseRequestURI ''invalid-url''
   \<and> ''invalid-url'' \<noteq> ''*'' \<and> \<not> names_a_scheme ''invalid-url'' \<and> take 1 ''invalid-url'' \<noteq> ''/''
   \<and> URLService_CreateShortURL url_ParseRequestURI example_service 100 (\<lambda>i. Inl ErrBackend)
       ''invalid-url'' [] [] 0 [] (example_pool, empty_cache)
     = (Inl ErrInvalidURL, (example_pool, empty_cache))"
proof -
  have n: "\<not> names_a_scheme ''invalid-url''"
    by (simp add: parse_defs)
  show ?thesis
    using n CreateShortURL_invalid_url_first [of "''invalid-url''" example_service 100
      "\<lambda>i. Inl ErrBackend" "[]" "[]" 0 "[]" "(example_pool, empty_cache)"]
    by simp
qed

lemma ParseRequestURI_examples:
  "url_ParseRequestURI ''/etc/passwd''" "url_ParseRequestURI ''*''" "url_ParseRequestURI ''a:b''"
  "url_ParseRequestURI ''https://example.com''" "url_ParseRequestURI ''https://example.org''"
  "\<not> url_ParseRequestURI ''invalid-url''"
  by (simp_all add: parse_defs parseAuthority_ok_def parseHost_ok_def cut_last_def
        shouldEscape_def validOptionalPort_def)

text \<open>
  C8, on a concrete input. The path \<^verbatim>\<open>/etc/passwd\<close> names no scheme, so it is no absolute URL; the
  parse accepts it, and \<open>CreateShortURL\<close> returns and stores a record for it. The parse
  accepts \<^verbatim>\<open>*\<close> as well.
\<close>

theorem CreateShortURL_accepts_relative_reference:
  "\<not> names_a_scheme ''/etc/passwd''
   \<and> url_ParseRequestURI ''/etc/passwd''
   \<and> fst (URLService_CreateShortURL url_ParseRequestURI example_service 100 zero_entropy
            ''/etc/passwd'' ''files'' ''Passwords'' 0 ''A'' (example_pool, empty_cache))
        = Inr \<lparr>ID = 2, Original = ''/etc/passwd'', Short = ''files'', Title = ''Passwords'',
               CreatedAt = 100, ExpiresAt = 0, Clicks = 0, CreatorReference = ''A'', DeletedAt = None\<rparr>
   \<and> urls (fst (snd (URLService_CreateShortURL url_ParseRequestURI example_service 100 zero_entropy
            ''/etc/passwd'' ''files'' ''Passwords'' 0 ''A'' (example_pool, empty_cache))))
        = [example_row,
           \<lparr>ID = 2, Original = ''/etc/passwd'', Short = ''files'', Title = ''Passwords'',
             CreatedAt = 100, ExpiresAt = 0, Clicks = 0, CreatorReference = ''A'', DeletedAt = None\<rparr>]
   \<and> \<not> names_a_scheme ''*''
   \<and> url_ParseRequestURI ''*''"
proof -
  have p: "url_ParseRequestURI ''/etc/passwd''" "url_ParseRequestURI ''*''"
    by (rule ParseRequestURI_examples)+
  have n: "\<not> names_a_scheme ''/etc/passwd''" "\<not> names_a_scheme ''*''"
    by (simp_all add: parse_defs)
  have r: "fst (URLService_CreateShortURL url_ParseRequestURI example_service 100 zero_entropy
            ''/etc/passwd'' ''files'' ''Passwords'' 0 ''A'' (example_pool, empty_cache))
        = Inr \<lparr>ID = 2, Original = ''/etc/passwd'', Short = ''files'', Title = ''Passwords'',
               CreatedAt = 100, ExpiresAt = 0, Clicks = 0, CreatorReference = ''A'', DeletedAt = None\<rparr>"
    by (simp add: URLService_CreateShortURL_def p URLService_GetByShort_def impl_defs pg_defs cache_defs
          ex_defs PostgresRepository_Create_returning_def NewURL_def Let_def)
  have u: "urls (fst (snd (URLService_CreateShortURL url_ParseRequestURI example_service 100 zero_entropy
            ''/etc/passwd'' ''files'' ''Passwords'' 0 ''A'' (example_pool, empty_cache))))
        = [example_row,
           \<lparr>ID = 2, Original = ''/etc/passwd'', Short = ''files'', Title = ''Passwords'',
             CreatedAt = 100, ExpiresAt = 0, Clicks = 0, CreatorReference = ''A'', DeletedAt = None\<rparr>]"
    by (simp add: URLService_CreateShortURL_def p URLService_GetByShort_def impl_defs pg_defs cache_defs
          ex_defs PostgresRepository_Create_returning_def NewURL_def Let_def)
  show ?thesis
    using p n r u by simp
qed

section \<open>Updates keep what they do not set\<close>

lemma updatedURL_of_fields:
  "ID (updatedURL_of now ex short title orig ea) = ID ex"
  "CreatedAt (updatedURL_of now ex short title orig ea) = CreatedAt ex"
  "Clicks (updatedURL_of now ex short title orig ea) = Clicks ex"
  "CreatorReference (updatedURL_of now ex short title orig ea) = CreatorReference ex"
  "ExpiresAt (updatedURL_of now ex short title orig ea) = (if ea > 0 then now + ea else ExpiresAt ex)"
  by (simp_all add: updatedURL_of_def Let_def)

lemma UpdateURL_result:
  assumes "URLService_UpdateURL P s now short title orig ea st = (Inr upd, st')"
  shows "\<exists>ex st1. URLService_GetByShort s now short st = (Inr ex, st1)
           \<and> upd = updatedURL_of now ex short title orig ea"
  using assms unfolding URLService_UpdateURL_def Let_def
  by (auto split: prod.splits sum.splits if_splits option.splits)

lemma UpdateURLWithCreator_result:
  assumes "URLService_UpdateURLWithCreator P s now short title orig ea ref st = (Inr upd, st')"
  shows "\<exists>ex st1. URLService_GetByShort s now short st = (Inr ex, st1)
           \<and> upd = updatedURL_of now ex short title orig ea"
  using assms unfolding URLService_UpdateURLWithCreator_def Let_def
  by (auto split: prod.splits sum.splits if_splits option.splits)

text \<open>
  C7. A successful \<open>UpdateURL\<close> or \<open>UpdateURLWithCreator\<close> returns a record with the identity,
  creation time, click count and creator reference of the existing record that the read path
  gave it; with a zero \<open>expireAfter\<close> the expiration is the existing one, with a positive one
  it is \<open>now + expireAfter\<close>.
\<close>

theorem update_preserves_existing_fields:
  assumes "URLService_UpdateURL P s now short title orig ea st = (Inr upd, st')
         \<or> URLService_UpdateURLWithCreator P s now short title orig ea ref st = (Inr upd, st')"
  shows "\<exists>ex st1. URLService_GetByShort s now short st = (Inr ex, st1)
           \<and> ID upd = ID ex \<and> CreatedAt upd = CreatedAt ex \<and> Clicks upd = Clicks ex
           \<and> CreatorReference upd = CreatorReference ex
           \<and> (ea = 0 \<longrightarrow> ExpiresAt upd = ExpiresAt ex)
           \<and> (ea > 0 \<longrightarrow> ExpiresAt upd = now + ea)"
proof -
  have "\<exists>ex st1. URLService_GetByShort s now short st = (Inr ex, st1)
           \<and> upd = updatedURL_of now ex short title orig ea"
    using assms
  proof
    assume "URLService_UpdateURL P s now short title orig ea st = (Inr upd, st')"
    then show ?thesis by (rule UpdateURL_result)
  next
    assume "URLService_UpdateURLWithCreator P s now short title orig ea ref st = (Inr upd, st')"
    then show ?thesis by (rule UpdateURLWithCreator_result)
  qed
  then obtain ex st1 where
    "URLService_GetByShort s now short st = (Inr ex, st1)"
    "upd = updatedURL_of now ex short title orig ea"
    by auto
  then show ?thesis
    by (auto simp: updatedURL_of_fields)
qed


theorem update_preserves_existing_fields_witness:
  "fst (URLService_UpdateURL example_parse example_service 100 ''abc123'' ''New title''
          ''https://example.com'' 0 (example_pool, empty_cache))
     = Inr (example_row\<lparr>Title := ''New title''\<rparr>)
   \<and> (\<exists>ex st1. URLService_GetByShort example_service 100 ''abc123'' (example_pool, empty_cache) = (Inr ex, st1)
           \<and> ID (example_row\<lparr>Title := ''New title''\<rparr>) = ID ex
           \<and> CreatedAt (example_row\<lparr>Title := ''New title''\<rparr>) = CreatedAt ex
           \<and> Clicks (example_row\<lparr>Title := ''New title''\<rparr>) = Clicks ex
           \<and> CreatorReference (example_row\<lparr>Title := ''New title''\<rparr>) = CreatorReference ex
           \<and> ExpiresAt (example_row\<lparr>Title := ''New title''\<rparr>) = ExpiresAt ex)"
proof -
  let ?run = "URLService_UpdateURL example_parse example_service 100 ''abc123'' ''New title''
                ''https://example.com'' 0 (example_pool, empty_cache)"
  have v: "fst ?run = Inr (example_row\<lparr>Title := ''New title''\<rparr>)"
    by (simp add: URLService_UpdateURL_def URLService_GetByShort_def impl_defs pg_defs cache_defs ex_defs
          updatedURL_of_def PostgresRepository_UpdateURL_def PostgresRepository_LogURLHistory_def
          marshal_snapshot_def insert_history_def update_urls_def IsZero_def Before_def Let_def)
  then have h: "?run = (Inr (example_row\<lparr>Title := ''New title''\<rparr>), snd ?run)"
    by (simp add: prod_eq_iff)
  show ?thesis
    using v update_preserves_existing_fields [OF disjI1 [OF h]] by simp
qed

section \<open>Ownership\<close>

text \<open>
  C4. When the repository's read of a code gives a live record whose creator reference
  differs from the requesting one, \<open>UpdateURLWithCreator\<close> and \<open>DeleteWithCreator\<close> of the
  repository both fail with the unauthorized error and leave the table of URLs as it was:
  nothing is overwritten and nothing is soft-deleted.
\<close>

theorem creator_mismatch_unauthorized:
  assumes "PostgresRepository_GetByShort now short p = (Inr existingURL, p1)"
      and "CreatorReference existingURL \<noteq> creatorReference"
  shows "fst (PostgresRepository_UpdateURLWithCreator now short url creatorReference p) = Some ErrUnauthorized
       \<and> urls (snd (PostgresRepository_UpdateURLWithCreator now short url creatorReference p)) = urls p
       \<and> fst (PostgresRepository_DeleteWithCreator now short creatorReference p) = Some ErrUnauthorized
       \<and> urls (snd (PostgresRepository_DeleteWithCreator now short creatorReference p)) = urls p"
proof -
  have "urls p1 = urls p"
    using assms(1)
    by (auto simp: PostgresRepository_GetByShort_def query_row_def pg_roundtrip_def
             split: prod.splits sum.splits if_splits option.splits list.splits bool.splits)
  with assms show ?thesis
    by (simp add: PostgresRepository_UpdateURLWithCreator_def PostgresRepository_DeleteWithCreator_def)
qed

theorem creator_mismatch_unauthorized_witness:
  "PostgresRepository_GetByShort 100 ''abc123'' example_pool = (Inr example_row, example_pool)
   \<and> CreatorReference example_row \<noteq> ''B''
   \<and> fst (PostgresRepository_UpdateURLWithCreator 100 ''abc123'' example_row ''B'' example_pool) = Some ErrUnauthorized
   \<and> urls (snd (PostgresRepository_UpdateURLWithCreator 100 ''abc123'' example_row ''B'' example_pool)) = urls example_pool
   \<and> fst (PostgresRepository_DeleteWithCreator 100 ''abc123'' ''B'' example_pool) = Some ErrUnauthorized
   \<and> urls (snd (PostgresRepository_DeleteWithCreator 100 ''abc123'' ''B'' example_pool)) = urls example_pool"
proof -
  have h1: "PostgresRepository_GetByShort 100 ''abc123'' example_pool = (Inr example_row, example_pool)"
    by (simp add: pg_defs ex_defs IsZero_def Before_def)
  have h2: "CreatorReference example_row \<noteq> ''B''"
    by (simp add: example_row_def)
  show ?thesis
    using h1 h2 creator_mismatch_unauthorized [OF h1 h2, of example_row] by simp
qed

section \<open>Two executions that leave the specified behaviour\<close>

lemma GetByShort_returns_Set_error:
  assumes "cache s = Some ch"
      and "cache_GetByShort ch now short c = (Inl e0, c1)"
      and "db_GetByShort (db s) now short r = (Inr urlRecord, r1)"
      and "cache_Set ch now urlRecord c1 = (Some err, c2)"
  shows "URLService_GetByShort s now short (r, c) = (Inl err, (r1, c2))"
  using assms by (simp add: URLService_GetByShort_def)

lemma GetByOriginal_returns_Set_error:
  assumes "cache s = Some ch"
      and "cache_GetByOriginal ch now original c = (Inl e0, c1)"
      and "db_GetByOriginal (db s) now original r = (Inr urlRecord, r1)"
      and "cache_Set ch now urlRecord c1 = (Some err, c2)"
  shows "URLService_GetByOriginal s now original (r, c) = (Inl err, (r1, c2))"
  using assms by (simp add: URLService_GetByOriginal_def)

text \<open>
  C1. The repository holds a live record and the cache is empty; the cache's read succeeds
  with a miss and its next round trip, the first write of \<open>Set\<close>, fails. The repository
  returns the record, and both service reads return the cache's error instead of it.
\<close>

theorem read_fails_on_cache_set_failure:
  "fst (PostgresRepository_GetByShort 100 ''abc123'' example_pool) = Inr example_row
   \<and> fst (CacheRepository_GetByShort 100 ''abc123'' failing_set_cache) = Inl ErrURLNotFound
   \<and> fst (URLService_GetByShort example_service 100 ''abc123'' (example_pool, failing_set_cache)) = Inl ErrBackend
   \<and> fst (URLService_GetByOriginal example_service 100 ''https://example.com'' (example_pool, failing_set_cache)) = Inl ErrBackend"
  by (simp add: URLService_GetByShort_def URLService_GetByOriginal_def impl_defs pg_defs cache_defs ex_defs failing_set_cache_def IsZero_def Before_def)

text \<open>
  C2. The only row with the short code has been soft-deleted, so no live record holds the
  code: the repository's read reports not-found. \<open>Create\<close> passes its own check, the insert
  violates the uniqueness constraint of the column, and nothing is stored.
\<close>

theorem create_rejected_after_soft_delete:
  "PostgresRepository_GetByShort 100 ''abc123'' soft_deleted_pool = (Inl ErrURLNotFound, soft_deleted_pool)
   \<and> PostgresRepository_Create (NewURL 100 ''https://example.org'' ''abc123'' ''Again'' 0 ''A'') soft_deleted_pool
       = (Some ErrUniqueViolation, soft_deleted_pool\<lparr>urls_id_seq := 3\<rparr>)"
  by (simp add: pg_defs ex_defs soft_deleted_pool_def NewURL_def)

section \<open>The cache returns what was set\<close>

lemma set_member_simps:
  "set_member (''id'', JNumber n) url = Inr (url\<lparr>ID := n\<rparr>)"
  "set_member (''original'', JString s) url = Inr (url\<lparr>Original := s\<rparr>)"
  "set_member (''short'', JString s) url = Inr (url\<lparr>Short := s\<rparr>)"
  "set_member (''title'', JString s) url = Inr (url\<lparr>Title := s\<rparr>)"
  "set_member (''created_at'', JTime t) url = Inr (url\<lparr>CreatedAt := t\<rparr>)"
  "set_member (''expires_at'', JTime t) url = Inr (url\<lparr>ExpiresAt := t\<rparr>)"
  "set_member (''clicks'', JNumber n) url = Inr (url\<lparr>Clicks := n\<rparr>)"
  "set_member (''creator_reference'', JString s) url = Inr (url\<lparr>CreatorReference := s\<rparr>)"
  "set_member (''deleted_at'', JTime t) url = Inr (url\<lparr>DeletedAt := Some t\<rparr>)"
  by (simp_all add: set_member_def set_number_def set_string_def set_time_def)

lemma json_roundtrip: "json_Marshal url = Inr data \<Longrightarrow> json_Unmarshal data = Inr url"
  by (cases url; cases "DeletedAt url"; cases "CreatorReference url = []")
     (auto simp: json_Marshal_def json_Unmarshal_def set_member_simps zeroURL_def)

lemma redis_roundtrip_entries [simp]: "entries (snd (redis_roundtrip r)) = entries r"
  by (simp add: redis_roundtrip_def split: list.splits)

lemma client_Set_ok:
  assumes "client_Set now k d e r = (None, r')" and "0 < e"
  shows "entries r' = (entries r)(k \<mapsto> (d, Some (now + e)))"
  using assms
  by (auto simp: client_Set_def redis_roundtrip_def Let_def split: list.splits bool.splits prod.splits if_splits)

lemma client_Get_visible:
  assumes "\<not> fst (redis_roundtrip r)" and "entries r k = Some (d, Some dl)" and "t < dl"
  shows "fst (client_Get t k r) = Inr d"
  using assms
  by (auto simp: client_Get_def redis_roundtrip_def visible_def split: list.splits bool.splits prod.splits)

lemma cache_keys_differ [simp]: "''short:'' @ a \<noteq> ''original:'' @ b" "''original:'' @ b \<noteq> ''short:'' @ a"
  by simp_all

lemma CacheRepository_Set_ok:
  assumes "CacheRepository_Set now u c = (None, c1)" and "0 < ttl c"
  shows "\<exists>data. json_Marshal u = Inr data
           \<and> entries (client c1) (''short:'' @ Short u) = Some (data, Some (now + ttl c))
           \<and> entries (client c1) (''original:'' @ Original u) = Some (data, Some (now + ttl c))"
proof -
  obtain data where m: "json_Marshal u = Inr data"
    by (simp add: json_Marshal_def)
  from assms(1) m obtain r1 r2 where
    s1: "client_Set now (''short:'' @ Short u) data (ttl c) (client c) = (None, r1)" and
    s2: "client_Set now (''original:'' @ Original u) data (ttl c) r1 = (None, r2)" and
    c1: "c1 = c\<lparr>client := r2\<rparr>"
    by (auto simp: CacheRepository_Set_def split: prod.splits option.splits)
  from client_Set_ok [OF s1 assms(2)] client_Set_ok [OF s2 assms(2)] m c1
  show ?thesis by simp
qed

lemma CacheRepository_GetByShort_hit:
  assumes "fst (client_Get t (''short:'' @ short) (client c)) = Inr data"
      and "json_Unmarshal data = Inr u" and "\<not> expired u t"
  shows "fst (CacheRepository_GetByShort t short c) = Inr u"
  using assms
  by (auto simp: CacheRepository_GetByShort_def expired_def split: prod.splits sum.splits)

lemma CacheRepository_GetByOriginal_hit:
  assumes "fst (client_Get t (''original:'' @ original) (client c)) = Inr data"
      and "json_Unmarshal data = Inr u" and "\<not> expired u t"
  shows "fst (CacheRepository_GetByOriginal t original c) = Inr u"
  using assms
  by (auto simp: CacheRepository_GetByOriginal_def expired_def split: prod.splits sum.splits)

text \<open>
  C9. After a successful \<open>Set\<close> of a record at \<open>now\<close> with a positive TTL, at any instant
  before \<open>now + ttl\<close> at which the record is not expired and the read's round trip does not
  fail, \<open>GetByShort\<close> of its short code and \<open>GetByOriginal\<close> of its original URL both return
  the record itself. Each of the two keys holds the same serialized copy, which decodes to
  the record, with the same deadline \<open>now + ttl\<close>.
\<close>

theorem cache_set_then_get:
  assumes "CacheRepository_Set now u c = (None, c1)"
      and "0 < ttl c" and "now \<le> t" and "t < now + ttl c"
      and "\<not> expired u t"
      and "\<not> fst (redis_roundtrip (client c1))"
  shows "fst (CacheRepository_GetByShort t (Short u) c1) = Inr u
       \<and> fst (CacheRepository_GetByOriginal t (Original u) c1) = Inr u
       \<and> (\<exists>data. json_Marshal u = Inr data \<and> json_Unmarshal data = Inr u
             \<and> entries (client c1) (''short:'' @ Short u) = Some (data, Some (now + ttl c))
             \<and> entries (client c1) (''original:'' @ Original u) = Some (data, Some (now + ttl c)))"
proof -
  from CacheRepository_Set_ok [OF assms(1,2)] obtain data where
    m: "json_Marshal u = Inr data" and
    e1: "entries (client c1) (''short:'' @ Short u) = Some (data, Some (now + ttl c))" and
    e2: "entries (client c1) (''original:'' @ Original u) = Some (data, Some (now + ttl c))"
    by blast
  have d: "json_Unmarshal data = Inr u"
    using m by (rule json_roundtrip)
  have g1: "fst (client_Get t (''short:'' @ Short u) (client c1)) = Inr data"
    using assms(6) e1 assms(4) by (rule client_Get_visible)
  have g2: "fst (client_Get t (''original:'' @ Original u) (client c1)) = Inr data"
    using assms(6) e2 assms(4) by (rule client_Get_visible)
  show ?thesis
    using CacheRepository_GetByShort_hit [OF g1 d assms(5)]
          CacheRepository_GetByOriginal_hit [OF g2 d assms(5)] m d e1 e2
    by blast
qed

theorem cache_set_then_get_witness:
  "fst (CacheRepository_Set 100 example_row empty_cache) = None
   \<and> 0 < ttl empty_cache \<and> (100::int) \<le> 200 \<and> 200 < 100 + ttl empty_cache
   \<and> \<not> expired example_row 200
   \<and> \<not> fst (redis_roundtrip (client (snd (CacheRepository_Set 100 example_row empty_cache))))
   \<and> fst (CacheRepository_GetByShort 200 ''abc123'' (snd (CacheRepository_Set 100 example_row empty_cache)))
        = Inr example_row
   \<and> fst (CacheRepository_GetByOriginal 200 ''https://example.com''
             (snd (CacheRepository_Set 100 example_row empty_cache)))
        = Inr example_row"
proof -
  let ?c1 = "snd (CacheRepository_Set 100 example_row empty_cache)"
  have h0: "fst (CacheRepository_Set 100 example_row empty_cache) = None"
    by (simp add: cache_defs ex_defs Hour_def)
  then have h1: "CacheRepository_Set 100 example_row empty_cache = (None, ?c1)"
    by (simp add: prod_eq_iff)
  have h2: "0 < ttl empty_cache" by (simp add: empty_cache_def Hour_def)
  have h3: "(100::int) \<le> 200" by simp
  have h4: "200 < 100 + ttl empty_cache" by (simp add: empty_cache_def Hour_def)
  have h5: "\<not> expired example_row 200" by (simp add: expired_def IsZero_def example_row_def)
  have h6: "\<not> fst (redis_roundtrip (client ?c1))"
    by (simp add: cache_defs ex_defs Hour_def)
  have s: "Short example_row = ''abc123''" "Original example_row = ''https://example.com''"
    by (simp_all add: example_row_def)
  show ?thesis
    using h0 h2 h3 h4 h5 h6 cache_set_then_get [OF h1 h2 h3 h4 h5 h6] by (simp add: s)
qed

section \<open>Expired records are unreachable\<close>

lemma Cache_GetByShort_live:
  "fst (CacheRepository_GetByShort now short c) = Inr u \<Longrightarrow> \<not> expired u now"
  by (auto simp: CacheRepository_GetByShort_def expired_def split: prod.splits sum.splits if_splits)

lemma Cache_GetByOriginal_live:
  "fst (CacheRepository_GetByOriginal now original c) = Inr u \<Longrightarrow> \<not> expired u now"
  by (auto simp: CacheRepository_GetByOriginal_def expired_def split: prod.splits sum.splits if_splits)

lemma Postgres_GetByShort_live:
  "fst (PostgresRepository_GetByShort now short p) = Inr u \<Longrightarrow> \<not> expired u now"
  by (auto simp: PostgresRepository_GetByShort_def expired_def split: prod.splits sum.splits if_splits)

lemma Postgres_GetByOriginal_live:
  "fst (PostgresRepository_GetByOriginal now original p) = Inr u \<Longrightarrow> \<not> expired u now"
  by (auto simp: PostgresRepository_GetByOriginal_def expired_def split: prod.splits sum.splits if_splits)

lemma Service_GetByShort_source:
  assumes "fst (URLService_GetByShort s now short (r, c)) = Inr u"
  shows "(\<exists>ch. cache s = Some ch \<and> fst (cache_GetByShort ch now short c) = Inr u)
       \<or> fst (db_GetByShort (db s) now short r) = Inr u"
  using assms
  by (auto simp: URLService_GetByShort_def split: prod.splits sum.splits option.splits)

lemma Service_GetByOriginal_source:
  assumes "fst (URLService_GetByOriginal s now original (r, c)) = Inr u"
  shows "(\<exists>ch. cache s = Some ch \<and> fst (cache_GetByOriginal ch now original c) = Inr u)
       \<or> fst (db_GetByOriginal (db s) now original r) = Inr u"
  using assms
  by (auto simp: URLService_GetByOriginal_def split: prod.splits sum.splits option.splits)

lemma Service_GetByShort_live:
  assumes "copt = None \<or> copt = Some CacheRepository_impl"
      and "fst (URLService_GetByShort (NewURLService PostgresRepository_impl copt) now short (p, c)) = Inr u"
  shows "\<not> expired u now"
  using Service_GetByShort_source [OF assms(2)] assms(1)
  by (auto simp: NewURLService_def PostgresRepository_impl_def CacheRepository_impl_def
           dest: Cache_GetByShort_live Postgres_GetByShort_live)

lemma Service_GetByOriginal_live:
  assumes "copt = None \<or> copt = Some CacheRepository_impl"
      and "fst (URLService_GetByOriginal (NewURLService PostgresRepository_impl copt) now original (p, c)) = Inr u"
  shows "\<not> expired u now"
  using Service_GetByOriginal_source [OF assms(2)] assms(1)
  by (auto simp: NewURLService_def PostgresRepository_impl_def CacheRepository_impl_def
           dest: Cache_GetByOriginal_live Postgres_GetByOriginal_live)

lemma Cache_GetByShort_expired:
  assumes "fst (client_Get now (''short:'' @ short) (client c)) = Inr data"
      and "json_Unmarshal data = Inr u" and "expired u now"
  shows "fst (CacheRepository_GetByShort now short c) = Inl ErrURLNotFound"
  using assms
  by (auto simp: CacheRepository_GetByShort_def expired_def split: prod.splits sum.splits)

lemma Cache_GetByOriginal_expired:
  assumes "fst (client_Get now (''original:'' @ original) (client c)) = Inr data"
      and "json_Unmarshal data = Inr u" and "expired u now"
  shows "fst (CacheRepository_GetByOriginal now original c) = Inl ErrURLNotFound"
  using assms
  by (auto simp: CacheRepository_GetByOriginal_def expired_def split: prod.splits sum.splits)

lemma query_row_selected:
  assumes "\<not> fst (pg_roundtrip p)" and "find cond (urls p) = Some u"
  shows "fst (query_row cond p) = Inr u"
  using assms
  by (auto simp: query_row_def pg_roundtrip_def split: list.splits prod.splits)

lemma Postgres_GetByShort_expired:
  assumes "\<not> fst (pg_roundtrip p)"
      and "find (\<lambda>row. Short row = short \<and> DeletedAt row = None) (urls p) = Some u"
      and "expired u now"
  shows "fst (PostgresRepository_GetByShort now short p) = Inl ErrURLNotFound"
  using query_row_selected [OF assms(1,2)] assms(3)
  by (auto simp: PostgresRepository_GetByShort_def expired_def split: prod.splits sum.splits)

lemma Postgres_GetByOriginal_expired:
  assumes "\<not> fst (pg_roundtrip p)"
      and "find (\<lambda>row. Original row = original \<and> DeletedAt row = None) (urls p) = Some u"
      and "expired u now"
  shows "fst (PostgresRepository_GetByOriginal now original p) = Inl ErrURLNotFound"
  using query_row_selected [OF assms(1,2)] assms(3)
  by (auto simp: PostgresRepository_GetByOriginal_def expired_def split: prod.splits sum.splits)

lemma Service_GetByShort_miss:
  assumes "\<forall>ch. cache s = Some ch \<longrightarrow> (\<forall>v. fst (cache_GetByShort ch now short c) \<noteq> Inr v)"
      and "fst (db_GetByShort (db s) now short r) = Inl e"
  shows "fst (URLService_GetByShort s now short (r, c)) = Inl e"
  using assms
  by (auto simp: URLService_GetByShort_def split: prod.splits sum.splits option.splits)

lemma Service_GetByShort_hit:
  assumes "cache s = Some ch" and "fst (cache_GetByShort ch now short c) = Inr v"
  shows "fst (URLService_GetByShort s now short (r, c)) = Inr v"
  using assms
  by (auto simp: URLService_GetByShort_def split: prod.splits sum.splits option.splits)

lemma Service_GetByOriginal_hit:
  assumes "cache s = Some ch" and "fst (cache_GetByOriginal ch now original c) = Inr v"
  shows "fst (URLService_GetByOriginal s now original (r, c)) = Inr v"
  using assms
  by (auto simp: URLService_GetByOriginal_def split: prod.splits sum.splits option.splits)

lemma Service_GetByOriginal_miss:
  assumes "\<forall>ch. cache s = Some ch \<longrightarrow> (\<forall>v. fst (cache_GetByOriginal ch now original c) \<noteq> Inr v)"
      and "fst (db_GetByOriginal (db s) now original r) = Inl e"
  shows "fst (URLService_GetByOriginal s now original (r, c)) = Inl e"
  using assms
  by (auto simp: URLService_GetByOriginal_def split: prod.splits sum.splits option.splits)

text \<open>
  C5. A record whose expiration is set and strictly before \<open>now\<close> is returned by no
  read path: not by the two reads of the cache, not by the two reads of the repository, and
  not by the two reads of the service over them, with or without a cache. Where a lookup
  of the cache or of the repository reaches such a record (the cache entry under the key
  decodes to it, or it is the row that the repository's query selects), the answer is
  \<open>ErrURLNotFound\<close>. The service gives that answer when the repository's query selects the
  record and the cache has no hit for the key; a hit of the cache is what the service
  returns, whatever the repository holds.
\<close>

theorem expired_record_unreachable:
  assumes "expired u now"
  shows "fst (CacheRepository_GetByShort now short c) \<noteq> Inr u
       \<and> fst (CacheRepository_GetByOriginal now original c) \<noteq> Inr u
       \<and> fst (PostgresRepository_GetByShort now short p) \<noteq> Inr u
       \<and> fst (PostgresRepository_GetByOriginal now original p) \<noteq> Inr u
       \<and> (copt = None \<or> copt = Some CacheRepository_impl \<longrightarrow>
             fst (URLService_GetByShort (NewURLService PostgresRepository_impl copt) now short (p, c)) \<noteq> Inr u
           \<and> fst (URLService_GetByOriginal (NewURLService PostgresRepository_impl copt) now original (p, c)) \<noteq> Inr u)
       \<and> (fst (client_Get now (''short:'' @ short) (client c)) = Inr data \<and> json_Unmarshal data = Inr u \<longrightarrow>
             fst (CacheRepository_GetByShort now short c) = Inl ErrURLNotFound)
       \<and> (fst (client_Get now (''original:'' @ original) (client c)) = Inr data \<and> json_Unmarshal data = Inr u \<longrightarrow>
             fst (CacheRepository_GetByOriginal now original c) = Inl ErrURLNotFound)
       \<and> (\<not> fst (pg_roundtrip p)
            \<and> find (\<lambda>row. Short row = short \<and> DeletedAt row = None) (urls p) = Some u \<longrightarrow>
             fst (PostgresRepository_GetByShort now short p) = Inl ErrURLNotFound
           \<and> ((copt = None \<or> copt = Some CacheRepository_impl
                   \<and> (\<forall>v. fst (CacheRepository_GetByShort now short c) \<noteq> Inr v)) \<longrightarrow>
                fst (URLService_GetByShort (NewURLService PostgresRepository_impl copt) now short (p, c))
                  = Inl ErrURLNotFound))
       \<and> (\<not> fst (pg_roundtrip p)
            \<and> find (\<lambda>row. Original row = original \<and> DeletedAt row = None) (urls p) = Some u \<longrightarrow>
             fst (PostgresRepository_GetByOriginal now original p) = Inl ErrURLNotFound
           \<and> ((copt = None \<or> copt = Some CacheRepository_impl
                   \<and> (\<forall>v. fst (CacheRepository_GetByOriginal now original c) \<noteq> Inr v)) \<longrightarrow>
                fst (URLService_GetByOriginal (NewURLService PostgresRepository_impl copt) now original (p, c))
                  = Inl ErrURLNotFound))
       \<and> (fst (CacheRepository_GetByShort now short c) = Inr v \<longrightarrow>
             fst (URLService_GetByShort (NewURLService PostgresRepository_impl (Some CacheRepository_impl))
                    now short (p, c)) = Inr v)
       \<and> (fst (CacheRepository_GetByOriginal now original c) = Inr v \<longrightarrow>
             fst (URLService_GetByOriginal (NewURLService PostgresRepository_impl (Some CacheRepository_impl))
                    now original (p, c)) = Inr v)"
proof -
  have h1: "fst (URLService_GetByShort (NewURLService PostgresRepository_impl (Some CacheRepository_impl))
                    now short (p, c)) = Inr v"
    if "fst (CacheRepository_GetByShort now short c) = Inr v"
    using that
    by (intro Service_GetByShort_hit [where ch = CacheRepository_impl])
       (simp_all add: NewURLService_def CacheRepository_impl_def)
  have h2: "fst (URLService_GetByOriginal (NewURLService PostgresRepository_impl (Some CacheRepository_impl))
                    now original (p, c)) = Inr v"
    if "fst (CacheRepository_GetByOriginal now original c) = Inr v"
    using that
    by (intro Service_GetByOriginal_hit [where ch = CacheRepository_impl])
       (simp_all add: NewURLService_def CacheRepository_impl_def)
  have a1: "fst (CacheRepository_GetByShort now short c) \<noteq> Inr u"
    using assms Cache_GetByShort_live by blast
  have a2: "fst (CacheRepository_GetByOriginal now original c) \<noteq> Inr u"
    using assms Cache_GetByOriginal_live by blast
  have a3: "fst (PostgresRepository_GetByShort now short p) \<noteq> Inr u"
    using assms Postgres_GetByShort_live by blast
  have a4: "fst (PostgresRepository_GetByOriginal now original p) \<noteq> Inr u"
    using assms Postgres_GetByOriginal_live by blast
  have a5: "fst (URLService_GetByShort (NewURLService PostgresRepository_impl copt) now short (p, c)) \<noteq> Inr u"
    if "copt = None \<or> copt = Some CacheRepository_impl"
    using assms Service_GetByShort_live [OF that] by blast
  have a6: "fst (URLService_GetByOriginal (NewURLService PostgresRepository_impl copt) now original (p, c)) \<noteq> Inr u"
    if "copt = None \<or> copt = Some CacheRepository_impl"
    using assms Service_GetByOriginal_live [OF that] by blast
  have b1: "fst (CacheRepository_GetByShort now short c) = Inl ErrURLNotFound"
    if "fst (client_Get now (''short:'' @ short) (client c)) = Inr data" "json_Unmarshal data = Inr u"
    using that assms by (rule Cache_GetByShort_expired)
  have b2: "fst (CacheRepository_GetByOriginal now original c) = Inl ErrURLNotFound"
    if "fst (client_Get now (''original:'' @ original) (client c)) = Inr data" "json_Unmarshal data = Inr u"
    using that assms by (rule Cache_GetByOriginal_expired)
  have b3: "fst (PostgresRepository_GetByShort now short p) = Inl ErrURLNotFound"
    if "\<not> fst (pg_roundtrip p)" "find (\<lambda>row. Short row = short \<and> DeletedAt row = None) (urls p) = Some u"
    using that assms by (rule Postgres_GetByShort_expired)
  have b4: "fst (PostgresRepository_GetByOriginal now original p) = Inl ErrURLNotFound"
    if "\<not> fst (pg_roundtrip p)" "find (\<lambda>row. Original row = original \<and> DeletedAt row = None) (urls p) = Some u"
    using that assms by (rule Postgres_GetByOriginal_expired)
  have b5: "fst (URLService_GetByShort (NewURLService PostgresRepository_impl copt) now short (p, c))
                  = Inl ErrURLNotFound"
    if "\<not> fst (pg_roundtrip p)" "find (\<lambda>row. Short row = short \<and> DeletedAt row = None) (urls p) = Some u"
       "copt = None \<or> copt = Some CacheRepository_impl \<and> (\<forall>v. fst (CacheRepository_GetByShort now short c) \<noteq> Inr v)"
  proof (rule Service_GetByShort_miss)
    show "\<forall>ch. cache (NewURLService PostgresRepository_impl copt) = Some ch \<longrightarrow>
            (\<forall>v. fst (cache_GetByShort ch now short c) \<noteq> Inr v)"
      using that(3) by (auto simp: NewURLService_def CacheRepository_impl_def)
    show "fst (db_GetByShort (db (NewURLService PostgresRepository_impl copt)) now short p) = Inl ErrURLNotFound"
      using b3 [OF that(1,2)] by (simp add: NewURLService_def PostgresRepository_impl_def)
  qed
  have b6: "fst (URLService_GetByOriginal (NewURLService PostgresRepository_impl copt) now original (p, c))
                  = Inl ErrURLNotFound"
    if "\<not> fst (pg_roundtrip p)" "find (\<lambda>row. Original row = original \<and> DeletedAt row = None) (urls p) = Some u"
       "copt = None \<or> copt = Some CacheRepository_impl \<and> (\<forall>v. fst (CacheRepository_GetByOriginal now original c) \<noteq> Inr v)"
  proof (rule Service_GetByOriginal_miss)
    show "\<forall>ch. cache (NewURLService PostgresRepository_impl copt) = Some ch \<longrightarrow>
            (\<forall>v. fst (cache_GetByOriginal ch now original c) \<noteq> Inr v)"
      using that(3) by (auto simp: NewURLService_def CacheRepository_impl_def)
    show "fst (db_GetByOriginal (db (NewURLService PostgresRepository_impl copt)) now original p) = Inl ErrURLNotFound"
      using b4 [OF that(1,2)] by (simp add: NewURLService_def PostgresRepository_impl_def)
  qed
  show ?thesis
    using a1 a2 a3 a4 a5 a6 b1 b2 b3 b4 b5 b6 h1 h2 by blast
qed

theorem expired_record_unreachable_witness:
  "expired expired_row 100
   \<and> fst (CacheRepository_GetByShort 100 ''abc123'' stale_cache) = Inl ErrURLNotFound
   \<and> fst (CacheRepository_GetByOriginal 100 ''https://example.com'' stale_cache) = Inl ErrURLNotFound
   \<and> fst (PostgresRepository_GetByShort 100 ''abc123'' expired_pool) = Inl ErrURLNotFound
   \<and> fst (PostgresRepository_GetByOriginal 100 ''https://example.com'' expired_pool) = Inl ErrURLNotFound
   \<and> fst (URLService_GetByShort example_service 100 ''abc123'' (expired_pool, stale_cache)) = Inl ErrURLNotFound
   \<and> fst (URLService_GetByOriginal example_service 100 ''https://example.com'' (expired_pool, stale_cache))
        = Inl ErrURLNotFound"
proof -
  let ?data = "[(''id'', JNumber 1), (''original'', JString ''https://example.com''),
      (''short'', JString ''abc123''), (''title'', JString ''Example''),
      (''created_at'', JTime 10), (''expires_at'', JTime 50),
      (''clicks'', JNumber 5), (''creator_reference'', JString ''A'')]"
  have e: "expired expired_row 100"
    by (simp add: expired_def IsZero_def Before_def ex_defs expired_row_def expired_pool_def stale_cache_def)
  have g1: "fst (client_Get 100 (''short:'' @ ''abc123'') (client stale_cache)) = Inr ?data"
    by (simp add: cache_defs ex_defs expired_row_def expired_pool_def stale_cache_def Hour_def)
  have g2: "fst (client_Get 100 (''original:'' @ ''https://example.com'') (client stale_cache)) = Inr ?data"
    by (simp add: cache_defs ex_defs expired_row_def expired_pool_def stale_cache_def Hour_def)
  have d: "json_Unmarshal ?data = Inr expired_row"
    by (simp add: json_Unmarshal_def set_member_simps zeroURL_def ex_defs expired_row_def expired_pool_def stale_cache_def)
  have r: "\<not> fst (pg_roundtrip expired_pool)"
    by (simp add: pg_roundtrip_def ex_defs expired_row_def expired_pool_def stale_cache_def)
  have f1: "find (\<lambda>row. Short row = ''abc123'' \<and> DeletedAt row = None) (urls expired_pool) = Some expired_row"
    by (simp add: ex_defs expired_row_def expired_pool_def stale_cache_def)
  have f2: "find (\<lambda>row. Original row = ''https://example.com'' \<and> DeletedAt row = None) (urls expired_pool)
              = Some expired_row"
    by (simp add: ex_defs expired_row_def expired_pool_def stale_cache_def)
  note T = expired_record_unreachable [OF e, of "''abc123''" stale_cache "''https://example.com''"
             expired_pool "Some CacheRepository_impl" ?data]
  from T g1 g2 d have c1: "fst (CacheRepository_GetByShort 100 ''abc123'' stale_cache) = Inl ErrURLNotFound"
    and c2: "fst (CacheRepository_GetByOriginal 100 ''https://example.com'' stale_cache) = Inl ErrURLNotFound"
    by simp_all
  from c1 c2 have n: "\<forall>v. fst (CacheRepository_GetByShort 100 ''abc123'' stale_cache) \<noteq> Inr v"
    "\<forall>v. fst (CacheRepository_GetByOriginal 100 ''https://example.com'' stale_cache) \<noteq> Inr v"
    by simp_all
  show ?thesis
    using e c1 c2 T r f1 f2 n by (simp add: example_service_def)
qed

lemmas replay_defs = URLService_UpdateURL_def URLService_UpdateURLWithCreator_def URLService_GetByShort_def
  URLService_GetByOriginal_def impl_defs pg_defs cache_defs ex_defs updatedURL_of_def
  PostgresRepository_UpdateURL_def PostgresRepository_UpdateURLWithCreator_def
  PostgresRepository_LogURLHistory_def marshal_snapshot_def insert_history_def update_urls_def
  json_Unmarshal_def set_member_simps zeroURL_def IsZero_def Before_def Hour_def Let_def

text \<open>
  C5, on two concrete histories. In both histories the repository's row is expired at 100 and the
  repository answers not-found, yet the service returns the copy that the cache still
  holds: by the short code after the lost cache write, and by the former original, whose
  key no update removes, when nothing failed.
\<close>

theorem service_serves_stale_copy:
  "urls (fst after_lost_write) = [example_row\<lparr>ExpiresAt := 50\<rparr>]
   \<and> expired (example_row\<lparr>ExpiresAt := 50\<rparr>) 100
   \<and> fst (PostgresRepository_GetByShort 100 ''abc123'' (fst after_lost_write)) = Inl ErrURLNotFound
   \<and> fst (URLService_GetByShort example_service 100 ''abc123'' after_lost_write) = Inr example_row
   \<and> urls (fst after_moved_original) = [example_row\<lparr>Original := ''https://example.org'', ExpiresAt := 50\<rparr>]
   \<and> expired (example_row\<lparr>Original := ''https://example.org'', ExpiresAt := 50\<rparr>) 100
   \<and> fst (PostgresRepository_GetByOriginal 100 ''https://example.com'' (fst after_moved_original))
        = Inl ErrURLNotFound
   \<and> fst (URLService_GetByOriginal example_service 100 ''https://example.com'' after_moved_original)
        = Inr example_row"
proof -
  have a: "urls (fst after_lost_write) = [example_row\<lparr>ExpiresAt := 50\<rparr>]"
    by (simp add: after_lost_write_def fifth_trip_fails_cache_def replay_defs)
  have b: "fst (URLService_GetByShort example_service 100 ''abc123'' after_lost_write) = Inr example_row"
    by (simp add: after_lost_write_def fifth_trip_fails_cache_def replay_defs)
  have c: "fst (PostgresRepository_GetByShort 100 ''abc123'' (fst after_lost_write)) = Inl ErrURLNotFound"
    by (simp add: after_lost_write_def fifth_trip_fails_cache_def replay_defs)
  have d: "urls (fst after_moved_original)
             = [example_row\<lparr>Original := ''https://example.org'', ExpiresAt := 50\<rparr>]"
    by (simp add: after_moved_original_def replay_defs ParseRequestURI_examples)
  have e: "fst (URLService_GetByOriginal example_service 100 ''https://example.com'' after_moved_original)
             = Inr example_row"
    by (simp add: after_moved_original_def replay_defs ParseRequestURI_examples)
  have f: "fst (PostgresRepository_GetByOriginal 100 ''https://example.com'' (fst after_moved_original))
             = Inl ErrURLNotFound"
    by (simp add: after_moved_original_def replay_defs ParseRequestURI_examples)
  have g: "expired (example_row\<lparr>ExpiresAt := 50\<rparr>) 100"
          "expired (example_row\<lparr>Original := ''https://example.org'', ExpiresAt := 50\<rparr>) 100"
    by (simp_all add: expired_def IsZero_def Before_def example_row_def)
  show ?thesis
    using a b c d e f g by simp
qed

section \<open>Click analytics\<close>








lemma pg_roundtrip_clicks [simp]: "clicks (snd (pg_roundtrip p)) = clicks p"
  by (simp add: pg_roundtrip_def split: list.splits)

lemma pg_roundtrip_urls [simp]: "urls (snd (pg_roundtrip p)) = urls p"
  by (simp add: pg_roundtrip_def split: list.splits)






section \<open>RecordClick and the one-hour window\<close>

lemma pg_roundtrip_no_faults: "pfaults p = [] \<Longrightarrow> pg_roundtrip p = (False, p)"
  by (simp add: pg_roundtrip_def)

lemma redis_roundtrip_no_faults: "rfaults r = [] \<Longrightarrow> redis_roundtrip r = (False, r)"
  by (simp add: redis_roundtrip_def)

lemma find_SomeD: "find P xs = Some x \<Longrightarrow> x \<in> set xs \<and> P x"
  by (induction xs) (auto split: if_splits)

lemma Postgres_GetByShort_no_faults:
  assumes "pfaults p = []"
      and "find (\<lambda>row. Short row = short \<and> DeletedAt row = None) (urls p) = Some u"
      and "\<not> expired u now"
  shows "PostgresRepository_GetByShort now short p = (Inr u, p)"
  using assms
  by (simp add: PostgresRepository_GetByShort_def query_row_def pg_roundtrip_no_faults expired_def)

lemma client_Get_no_faults: "rfaults r = [] \<Longrightarrow> snd (client_Get now k r) = r"
  by (simp add: client_Get_def redis_roundtrip_no_faults split: option.splits)

lemma client_Del_no_faults: "rfaults r = [] \<Longrightarrow> rfaults (snd (client_Del ks r)) = []"
  by (simp add: client_Del_def redis_roundtrip_no_faults)

lemma Cache_GetByShort_no_faults:
  assumes "rfaults (client c) = []"
  shows "rfaults (client (snd (CacheRepository_GetByShort now short c))) = []"
proof -
  have "snd (client_Get now (''short:'' @ short) (client c)) = client c"
    using assms by (rule client_Get_no_faults)
  then show ?thesis
    using assms client_Del_no_faults [OF assms]
    by (cases "client_Get now (''short:'' @ short) (client c)")
       (auto simp: CacheRepository_GetByShort_def split: sum.splits)
qed

lemma client_Set_no_faults:
  "rfaults r = [] \<Longrightarrow> fst (client_Set now k d e r) = None \<and> rfaults (snd (client_Set now k d e r)) = []"
  by (simp add: client_Set_def redis_roundtrip_no_faults Let_def)

lemma Cache_Set_no_faults:
  assumes "rfaults (client c) = []"
  shows "fst (CacheRepository_Set now u c) = None"
proof -
  obtain data where m: "json_Marshal u = Inr data"
    by (simp add: json_Marshal_def)
  obtain e1 r1 where s1: "client_Set now (''short:'' @ Short u) data (ttl c) (client c) = (e1, r1)"
    by (cases "client_Set now (''short:'' @ Short u) data (ttl c) (client c)")
  have "e1 = None" "rfaults r1 = []"
    using client_Set_no_faults [OF assms, of now "''short:'' @ Short u" data "ttl c"] s1 by simp_all
  moreover obtain e2 r2 where s2: "client_Set now (''original:'' @ Original u) data (ttl c) r1 = (e2, r2)"
    by (cases "client_Set now (''original:'' @ Original u) data (ttl c) r1")
  ultimately have "e2 = None"
    using client_Set_no_faults [of r1 now "''original:'' @ Original u" data "ttl c"] by simp
  with m s1 s2 \<open>e1 = None\<close> show ?thesis
    by (simp add: CacheRepository_Set_def)
qed

lemma Service_GetByShort_no_faults:
  assumes "pfaults p = []"
      and "copt = None \<or> (copt = Some CacheRepository_impl \<and> rfaults (client c) = [])"
      and "find (\<lambda>row. Short row = short \<and> DeletedAt row = None) (urls p) = Some u"
      and "\<not> expired u now"
  shows "\<exists>v c2. URLService_GetByShort (NewURLService PostgresRepository_impl copt) now short (p, c)
                  = (Inr v, (p, c2))
               \<and> (v = u \<or> (copt = Some CacheRepository_impl \<and> fst (CacheRepository_GetByShort now short c) = Inr v))"
proof -
  note db = Postgres_GetByShort_no_faults [OF assms(1,3,4)]
  from assms(2) show ?thesis
  proof
    assume "copt = None"
    then show ?thesis
      using db by (simp add: URLService_GetByShort_def NewURLService_def PostgresRepository_impl_def)
  next
    assume some: "copt = Some CacheRepository_impl \<and> rfaults (client c) = []"
    obtain res c1 where g: "CacheRepository_GetByShort now short c = (res, c1)"
      by (cases "CacheRepository_GetByShort now short c")
    have nf: "rfaults (client c1) = []"
      using Cache_GetByShort_no_faults [of c now short] some g by simp
    obtain c2 where s: "CacheRepository_Set now u c1 = (None, c2)"
      using Cache_Set_no_faults [OF nf, of now u]
      by (cases "CacheRepository_Set now u c1") simp
    show ?thesis
      using some g db s
      by (cases res)
         (simp_all add: URLService_GetByShort_def NewURLService_def PostgresRepository_impl_def
            CacheRepository_impl_def)
  qed
qed

lemma HasRecentClick_no_faults:
  "pfaults p = [] \<Longrightarrow>
   PostgresRepository_HasRecentClick now short ip browser device p
     = (Inr (list_ex (\<lambda>c. URLShort c = short \<and> IP c = ip \<and> Browser c = browser
                        \<and> Device c = device \<and> Timestamp c > now - Hour) (clicks p)), p)"
  by (simp add: PostgresRepository_HasRecentClick_def pg_roundtrip_no_faults)

lemma StoreClick_no_faults:
  assumes "pfaults p = []" and "list_ex (\<lambda>row. ID row = URLID k) (urls p)"
  shows "PostgresRepository_StoreClick k p
           = (None, p\<lparr>clicks_id_seq := clicks_id_seq p + 1,
                      clicks := clicks p @ [k\<lparr>ClickID := clicks_id_seq p\<rparr>]\<rparr>)"
  using assms
  by (simp add: PostgresRepository_StoreClick_def pg_roundtrip_no_faults insert_click_def Let_def)

text \<open>
  C3. No round trip fails, the repository holds a live record for the code, and a cache
  hit for the code, if there is one, carries the identity of a stored row (so the store
  accepts the click). Then \<open>RecordClick\<close> fails with \<open>ErrRecentClick\<close> exactly when some
  stored click has the same code, IP, browser and device and a timestamp later than
  \<open>now - Hour\<close>; in that case the clicks are unchanged; otherwise it succeeds and appends
  exactly one click, with the given fields and the timestamp \<open>now\<close>. In both cases the
  table of URLs, and with it every click counter, is unchanged.
\<close>

theorem RecordClick_dedup:
  assumes "pfaults p = []"
      and "copt = None \<or> (copt = Some CacheRepository_impl \<and> rfaults (client c) = [])"
      and "find (\<lambda>row. Short row = short \<and> DeletedAt row = None) (urls p) = Some u"
      and "\<not> expired u now"
      and "\<forall>v. copt \<noteq> None \<and> fst (CacheRepository_GetByShort now short c) = Inr v
               \<longrightarrow> list_ex (\<lambda>row. ID row = ID v) (urls p)"
      and "URLService_RecordClick (NewURLService PostgresRepository_impl copt) now short ip location browser device (p, c)
             = (res, (p', c'))"
  shows "(res = Some ErrRecentClick \<longleftrightarrow>
            (\<exists>k \<in> set (clicks p). URLShort k = short \<and> IP k = ip \<and> Browser k = browser
                \<and> Device k = device \<and> now - Hour < Timestamp k))
       \<and> (res = Some ErrRecentClick \<longrightarrow> clicks p' = clicks p)
       \<and> (res \<noteq> Some ErrRecentClick \<longrightarrow>
            res = None
          \<and> (\<exists>k. clicks p' = clicks p @ [k] \<and> URLShort k = short \<and> IP k = ip \<and> Location k = location
                  \<and> Browser k = browser \<and> Device k = device \<and> Timestamp k = now))
       \<and> urls p' = urls p"
proof -
  let ?recent = "list_ex (\<lambda>c. URLShort c = short \<and> IP c = ip \<and> Browser c = browser
                        \<and> Device c = device \<and> Timestamp c > now - Hour) (clicks p)"
  have recent_iff: "?recent \<longleftrightarrow> (\<exists>k \<in> set (clicks p). URLShort k = short \<and> IP k = ip \<and> Browser k = browser
                \<and> Device k = device \<and> now - Hour < Timestamp k)"
    by (simp add: list_ex_iff)
  note hrc = HasRecentClick_no_faults [OF assms(1), of now short ip browser device]
  show ?thesis
  proof (cases ?recent)
    case True
    then have "res = Some ErrRecentClick" "p' = p"
      using assms(6) hrc
      by (simp_all add: URLService_RecordClick_def NewURLService_def PostgresRepository_impl_def)
    then show ?thesis
      using True recent_iff by simp
  next
    case False
    from Service_GetByShort_no_faults [OF assms(1,2,3,4)] obtain v c2 where
      g: "URLService_GetByShort (NewURLService PostgresRepository_impl copt) now short (p, c) = (Inr v, (p, c2))" and
      src: "v = u \<or> (copt = Some CacheRepository_impl \<and> fst (CacheRepository_GetByShort now short c) = Inr v)"
      by blast
    have "u \<in> set (urls p)"
      using find_SomeD [OF assms(3)] by simp
    then have "list_ex (\<lambda>row. ID row = ID u) (urls p)"
      by (auto simp: list_ex_iff)
    with src assms(5) have fk: "list_ex (\<lambda>row. ID row = ID v) (urls p)"
      by auto
    let ?k = "NewClick now (ID v) short ip location browser device"
    have fk': "list_ex (\<lambda>row. ID row = URLID ?k) (urls p)"
      using fk by (simp add: NewClick_def)
    note sc = StoreClick_no_faults [OF assms(1) fk']
    have run: "URLService_RecordClick (NewURLService PostgresRepository_impl copt) now short ip location browser device (p, c)
             = (None, (p\<lparr>clicks_id_seq := clicks_id_seq p + 1,
                          clicks := clicks p @ [?k\<lparr>ClickID := clicks_id_seq p\<rparr>]\<rparr>, c2))"
      using False hrc g sc
      by (simp add: URLService_RecordClick_def NewURLService_def PostgresRepository_impl_def)
    from run assms(6) have "res = None"
      and "p' = p\<lparr>clicks_id_seq := clicks_id_seq p + 1, clicks := clicks p @ [?k\<lparr>ClickID := clicks_id_seq p\<rparr>]\<rparr>"
      by simp_all
    then show ?thesis
      using False recent_iff by (simp add: NewClick_def)
  qed
qed

theorem RecordClick_dedup_witness:
  "fst (URLService_RecordClick example_service 1000 ''abc123'' ''1.2.3.4'' ''ID'' ''Chrome'' ''Mobile''
          (clicked_pool, empty_cache)) = Some ErrRecentClick
   \<and> clicks (fst (snd (URLService_RecordClick example_service 1000 ''abc123'' ''1.2.3.4'' ''ID'' ''Chrome'' ''Mobile''
          (clicked_pool, empty_cache)))) = clicks clicked_pool
   \<and> fst (URLService_RecordClick example_service 1000 ''abc123'' ''9.9.9.9'' ''SG'' ''Safari'' ''Tablet''
          (clicked_pool, empty_cache)) = None
   \<and> (\<exists>k. clicks (fst (snd (URLService_RecordClick example_service 1000 ''abc123'' ''9.9.9.9'' ''SG'' ''Safari''
                ''Tablet'' (clicked_pool, empty_cache)))) = clicks clicked_pool @ [k]
          \<and> URLShort k = ''abc123'' \<and> IP k = ''9.9.9.9'' \<and> Location k = ''SG''
          \<and> Browser k = ''Safari'' \<and> Device k = ''Tablet'' \<and> Timestamp k = 1000)
   \<and> urls (fst (snd (URLService_RecordClick example_service 1000 ''abc123'' ''9.9.9.9'' ''SG'' ''Safari''
                ''Tablet'' (clicked_pool, empty_cache)))) = urls clicked_pool"
proof -
  let ?again = "URLService_RecordClick (NewURLService PostgresRepository_impl (Some CacheRepository_impl))
                  1000 ''abc123'' ''1.2.3.4'' ''ID'' ''Chrome'' ''Mobile'' (clicked_pool, empty_cache)"
  let ?fresh = "URLService_RecordClick (NewURLService PostgresRepository_impl (Some CacheRepository_impl))
                  1000 ''abc123'' ''9.9.9.9'' ''SG'' ''Safari'' ''Tablet'' (clicked_pool, empty_cache)"
  have h1: "pfaults clicked_pool = []"
    by (simp add: ex_defs clicked_pool_def)
  have h2: "Some CacheRepository_impl = None
            \<or> (Some CacheRepository_impl = Some CacheRepository_impl \<and> rfaults (client empty_cache) = [])"
    by (simp add: ex_defs clicked_pool_def)
  have h3: "find (\<lambda>row. Short row = ''abc123'' \<and> DeletedAt row = None) (urls clicked_pool) = Some example_row"
    by (simp add: ex_defs clicked_pool_def)
  have h4: "\<not> expired example_row 1000"
    by (simp add: expired_def IsZero_def ex_defs clicked_pool_def)
  have h5: "\<forall>v. Some CacheRepository_impl \<noteq> None
                 \<and> fst (CacheRepository_GetByShort 1000 ''abc123'' empty_cache) = Inr v
               \<longrightarrow> list_ex (\<lambda>row. ID row = ID v) (urls clicked_pool)"
    by (simp add: cache_defs ex_defs clicked_pool_def)
  have a: "?again = (fst ?again, (fst (snd ?again), snd (snd ?again)))"
    by simp
  have f: "?fresh = (fst ?fresh, (fst (snd ?fresh), snd (snd ?fresh)))"
    by simp
  have recent: "\<exists>k \<in> set (clicks clicked_pool). URLShort k = ''abc123'' \<and> IP k = ''1.2.3.4''
                  \<and> Browser k = ''Chrome'' \<and> Device k = ''Mobile'' \<and> 1000 - Hour < Timestamp k"
    by (simp add: ex_defs clicked_pool_def Hour_def)
  have none: "\<not> (\<exists>k \<in> set (clicks clicked_pool). URLShort k = ''abc123'' \<and> IP k = ''9.9.9.9''
                  \<and> Browser k = ''Safari'' \<and> Device k = ''Tablet'' \<and> 1000 - Hour < Timestamp k)"
    by (simp add: ex_defs clicked_pool_def Hour_def)
  note A = RecordClick_dedup [OF h1 h2 h3 h4 h5 a]
  note F = RecordClick_dedup [OF h1 h2 h3 h4 h5 f]
  from A recent have a1: "fst ?again = Some ErrRecentClick" by blast
  with A have a2: "clicks (fst (snd ?again)) = clicks clicked_pool" by blast
  from F none have f1: "fst ?fresh \<noteq> Some ErrRecentClick" by blast
  with F have f2: "fst ?fresh = None"
    and f3: "\<exists>k. clicks (fst (snd ?fresh)) = clicks clicked_pool @ [k]
          \<and> URLShort k = ''abc123'' \<and> IP k = ''9.9.9.9'' \<and> Location k = ''SG''
          \<and> Browser k = ''Safari'' \<and> Device k = ''Tablet'' \<and> Timestamp k = 1000"
    and f4: "urls (fst (snd ?fresh)) = urls clicked_pool"
    by blast+
  show ?thesis
    unfolding example_service_def using a1 a2 f2 f3 f4 by blast
qed

section \<open>Ownership, seen from the service\<close>

text \<open>
  The ownership check of the repository reaches the caller of the service when no round
  trip fails and the new original URL is valid: the two creator-scoped operations of the
  service then fail with the same error, and the table of URLs is unchanged.
\<close>

lemma LogURLHistory_no_faults:
  assumes "pfaults p = []"
  shows "urls (snd (PostgresRepository_LogURLHistory now urlID short action oldValue newValue modifiedBy p)) = urls p
       \<and> pfaults (snd (PostgresRepository_LogURLHistory now urlID short action oldValue newValue modifiedBy p)) = []"
  using assms
  by (simp add: PostgresRepository_LogURLHistory_def pg_roundtrip_no_faults insert_history_def Let_def
           split: sum.splits)

lemma query_same_urls:
  assumes "urls q = urls p" and "pfaults q = []"
      and "find (\<lambda>row. Short row = short \<and> DeletedAt row = None) (urls p) = Some u"
      and "\<not> expired u now"
  shows "PostgresRepository_GetByShort now short q = (Inr u, q)"
  using Postgres_GetByShort_no_faults [of q short u now] assms by simp

lemma service_creator_mismatch_unauthorized:
  assumes "pfaults p = []"
      and "copt = None \<or> (copt = Some CacheRepository_impl \<and> rfaults (client c) = [])"
      and "find (\<lambda>row. Short row = short \<and> DeletedAt row = None) (urls p) = Some u"
      and "\<not> expired u now"
      and "CreatorReference u \<noteq> creatorReference"
      and "ParseRequestURI originalURL"
  shows "fst (URLService_UpdateURLWithCreator ParseRequestURI (NewURLService PostgresRepository_impl copt)
                now short title originalURL expireAfter creatorReference (p, c)) = Inl ErrUnauthorized
       \<and> urls (fst (snd (URLService_UpdateURLWithCreator ParseRequestURI (NewURLService PostgresRepository_impl copt)
                now short title originalURL expireAfter creatorReference (p, c)))) = urls p
       \<and> fst (URLService_DeleteWithCreator (NewURLService PostgresRepository_impl copt)
                now short creatorReference (p, c)) = Some ErrUnauthorized
       \<and> urls (fst (snd (URLService_DeleteWithCreator (NewURLService PostgresRepository_impl copt)
                now short creatorReference (p, c)))) = urls p"
proof -
  let ?S = "NewURLService PostgresRepository_impl copt"
  from Service_GetByShort_no_faults [OF assms(1,2,3,4)] obtain v c2 where
    g: "URLService_GetByShort ?S now short (p, c) = (Inr v, (p, c2))"
    by blast
  have unauthorized:
    "PostgresRepository_UpdateURLWithCreator now short url creatorReference q = (Some ErrUnauthorized, q)
     \<and> PostgresRepository_DeleteWithCreator now short creatorReference q = (Some ErrUnauthorized, q)"
    if "urls q = urls p" "pfaults q = []" for q url
    using query_same_urls [OF that assms(3,4)] assms(5)
    by (simp add: PostgresRepository_UpdateURLWithCreator_def PostgresRepository_DeleteWithCreator_def)
  let ?upd = "updatedURL_of now v short title originalURL expireAfter"
  let ?q1 = "snd (PostgresRepository_LogURLHistory now (ID v) short ''update'' (Some v) (Some ?upd) creatorReference p)"
  let ?q2 = "snd (PostgresRepository_LogURLHistory now (ID v) short ''delete'' (Some v) None creatorReference p)"
  note l1 = LogURLHistory_no_faults [OF assms(1), of now "ID v" short "''update''" "Some v" "Some ?upd" creatorReference]
  note l2 = LogURLHistory_no_faults [OF assms(1), of now "ID v" short "''delete''" "Some v" None creatorReference]
  have u1: "PostgresRepository_UpdateURLWithCreator now short ?upd creatorReference ?q1 = (Some ErrUnauthorized, ?q1)"
    using unauthorized [of ?q1 ?upd] l1 by simp
  have d1: "PostgresRepository_DeleteWithCreator now short creatorReference ?q2 = (Some ErrUnauthorized, ?q2)"
    using unauthorized [of ?q2] l2 by simp
  have "URLService_UpdateURLWithCreator ParseRequestURI ?S now short title originalURL expireAfter
          creatorReference (p, c) = (Inl ErrUnauthorized, (?q1, c2))"
    using g assms(6) u1
    by (simp add: URLService_UpdateURLWithCreator_def Let_def NewURLService_def PostgresRepository_impl_def)
  moreover have "URLService_DeleteWithCreator ?S now short creatorReference (p, c)
          = (Some ErrUnauthorized, (?q2, c2))"
    using g d1
    by (simp add: URLService_DeleteWithCreator_def Let_def NewURLService_def PostgresRepository_impl_def)
  ultimately show ?thesis
    using l1 l2 by simp
qed

section \<open>The generated short code\<close>

lemma encodeURL_length: "length encodeURL = 64"
  by (simp add: encodeURL_def)

lemma encodeURL_no_padding: "i < 64 \<Longrightarrow> encodeURL ! i \<noteq> CHR ''=''"
proof -
  assume "i < 64"
  then have "encodeURL ! i \<in> set encodeURL"
    by (simp add: encodeURL_length)
  moreover have "CHR ''='' \<notin> set encodeURL"
    by (simp add: encodeURL_def)
  ultimately show ?thesis by metis
qed

lemma byte_bound: "unat (a :: 8 word) < 256"
  using unsigned_less [of a, where ?'a = nat] by simp

lemma sextet_bounds:
  fixes a b :: "8 word"
  shows "unat a div 4 < 64" "(unat a mod 4) * 16 + unat b div 16 < 64"
        "(unat a mod 16) * 4 + unat b div 64 < 64" "unat a mod 64 < 64"
  using byte_bound [of a] byte_bound [of b] by arith+

lemma upt_6: "[0..<6] = [0, 1, 2, 3, 4, 5::nat]"
  by (simp add: upt_rec)

lemma strip_and_cut_6:
  "\<exists>short. strip_and_cut (EncodeToString (map bytes [0..<6])) 6 = Inr short
      \<and> short = take 6 (filter (\<lambda>ch. ch \<noteq> CHR ''='') (EncodeToString (map bytes [0..<6])))
      \<and> length short = 6"
  by (simp add: upt_6 strip_and_cut_def Let_def encodeURL_no_padding sextet_bounds)


lemma generateShortURL_from_accept:
  "generateShortURL_from s now rnd n i st = (Inr short, st') \<Longrightarrow>
   \<exists>j bytes st0. i \<le> j \<and> j < 5 \<and> rnd j = Inr bytes
      \<and> strip_and_cut (EncodeToString (map bytes [0..<n])) n = Inr short
      \<and> URLService_GetByShort s now short st0 = (Inl ErrURLNotFound, st')"
proof (induction s now rnd n i st rule: generateShortURL_from.induct)
  case (1 s now rnd n i st)
  from "1.prems" have lt: "i < 5"
    by (subst (asm) generateShortURL_from.simps) (simp split: if_splits)
  from "1.prems" lt obtain bytes where b: "rnd i = Inr bytes"
    by (subst (asm) generateShortURL_from.simps) (simp split: sum.splits)
  from "1.prems" lt b obtain cand where c: "strip_and_cut (EncodeToString (map bytes [0..<n])) n = Inr cand"
    by (subst (asm) generateShortURL_from.simps) (simp split: sum.splits)
  obtain res st1 where g: "URLService_GetByShort s now cand st = (res, st1)"
    by (cases "URLService_GetByShort s now cand st")
  show ?case
  proof (cases "res = Inl ErrURLNotFound")
    case True
    with "1.prems" lt b c g have "short = cand" "st' = st1"
      by (subst (asm) generateShortURL_from.simps, simp)+
    with lt b c g True show ?thesis by blast
  next
    case False
    with "1.prems" lt b c g
    have next_run: "generateShortURL_from s now rnd n (i + 1) st1 = (Inr short, st')"
      by (subst (asm) generateShortURL_from.simps) (simp split: sum.splits if_splits)
    have "\<exists>j bytes st0. i + 1 \<le> j \<and> j < 5 \<and> rnd j = Inr bytes
      \<and> strip_and_cut (EncodeToString (map bytes [0..<n])) n = Inr short
      \<and> URLService_GetByShort s now short st0 = (Inl ErrURLNotFound, st')"
    proof (cases res)
      case (Inl err)
      with False have "err \<noteq> ErrURLNotFound" by simp
      from "1.IH"(1) [OF lt b c g [symmetric] Inl this next_run] show ?thesis .
    next
      case (Inr found)
      from "1.IH"(2) [OF lt b c g [symmetric] Inr next_run] show ?thesis .
    qed
    then show ?thesis
      by (meson Suc_leD Suc_eq_plus1 le_trans le_add1)
  qed
qed


lemma generateShortURL_from_entropy:
  "(\<forall>j<5. rnd j = rnd' j) \<Longrightarrow>
   generateShortURL_from s now rnd n i st = generateShortURL_from s now rnd' n i st"
proof (induction s now rnd n i st rule: generateShortURL_from.induct)
  case (1 s now rnd n i st)
  show ?case
  proof (cases "i < 5")
    case False
    then show ?thesis
      by (simp add: generateShortURL_from.simps [of s now rnd n i st]
                    generateShortURL_from.simps [of s now rnd' n i st])
  next
    case True
    with "1.prems" have eq: "rnd' i = rnd i" by simp
    show ?thesis
    proof (cases "rnd i")
      case (Inl err)
      with True eq show ?thesis
        by (simp add: generateShortURL_from.simps [of s now rnd n i st]
                      generateShortURL_from.simps [of s now rnd' n i st])
    next
      case b: (Inr bytes)
      show ?thesis
      proof (cases "strip_and_cut (EncodeToString (map bytes [0..<n])) n")
        case (Inl err)
        with True eq b show ?thesis
          by (simp add: generateShortURL_from.simps [of s now rnd n i st]
                        generateShortURL_from.simps [of s now rnd' n i st])
      next
        case c: (Inr cand)
        obtain res st1 where g: "URLService_GetByShort s now cand st = (res, st1)"
          by (cases "URLService_GetByShort s now cand st")
        show ?thesis
        proof (cases res)
          case (Inl err)
          show ?thesis
          proof (cases "err = ErrURLNotFound")
            case True
            with \<open>i < 5\<close> eq b c g Inl show ?thesis
              by (simp add: generateShortURL_from.simps [of s now rnd n i st]
                            generateShortURL_from.simps [of s now rnd' n i st])
          next
            case False
            from "1.IH"(1) [OF True b c g [symmetric] Inl False "1.prems"]
            have "generateShortURL_from s now rnd n (i + 1) st1 = generateShortURL_from s now rnd' n (i + 1) st1" .
            with True eq b c g Inl False show ?thesis
              by (simp add: generateShortURL_from.simps [of s now rnd n i st]
                            generateShortURL_from.simps [of s now rnd' n i st])
          qed
        next
          case (Inr found)
          from "1.IH"(2) [OF True b c g [symmetric] Inr "1.prems"]
          have "generateShortURL_from s now rnd n (i + 1) st1 = generateShortURL_from s now rnd' n (i + 1) st1" .
          with True eq b c g Inr show ?thesis
            by (simp add: generateShortURL_from.simps [of s now rnd n i st]
                          generateShortURL_from.simps [of s now rnd' n i st])
        qed
      qed
    qed
  qed
qed

lemma generateShortURL_from_exhausted:
  "attempts_all_taken s now rnd n k i st \<Longrightarrow> i + k = 5 \<Longrightarrow>
   fst (generateShortURL_from s now rnd n i st) = Inl ErrURLExists"
proof (induction k arbitrary: i st)
  case 0
  then have "i = 5" by simp
  then show ?case
    by (simp add: generateShortURL_from.simps [of s now rnd n 5 st])
next
  case (Suc k)
  from Suc.prems(2) have lt: "i < 5" by simp
  from Suc.prems(1) obtain bytes where b: "rnd i = Inr bytes"
    by (cases "rnd i") simp_all
  with Suc.prems(1) obtain cand where
    c: "strip_and_cut (EncodeToString (map bytes [0..<n])) n = Inr cand"
    by (cases "strip_and_cut (EncodeToString (map bytes [0..<n])) n") simp_all
  obtain res st1 where g0: "URLService_GetByShort s now cand st = (res, st1)"
    by (cases "URLService_GetByShort s now cand st")
  with Suc.prems(1) b c obtain found where
    g: "URLService_GetByShort s now cand st = (Inr found, st1)" and
    rest: "attempts_all_taken s now rnd n k (i + 1) st1"
    by (cases res) simp_all
  from Suc.IH [OF rest] Suc.prems(2)
  have "fst (generateShortURL_from s now rnd n (i + 1) st1) = Inl ErrURLExists"
    by simp
  with lt b c g show ?case
    by (simp add: generateShortURL_from.simps [of s now rnd n i st])
qed

lemma CreateShortURL_generated:
  assumes "ParseRequestURI originalURL"
  shows "URLService_CreateShortURL ParseRequestURI s now rnd originalURL [] title expireAfter creatorReference st =
     (case generateShortURL s now rnd 6 st of
        (Inl err, st1) \<Rightarrow> (Inl err, st1)
      | (Inr short, (r1, c1)) \<Rightarrow>
          (case db_Create (db s) now
                  (NewURL now originalURL short title (if expireAfter > 0 then now + expireAfter else 0) creatorReference) r1 of
             (Inl err, r2) \<Rightarrow> (Inl err, (r2, c1))
           | (Inr createdURL, r2) \<Rightarrow>
               (case cache s of
                  None \<Rightarrow> (Inr createdURL, (r2, c1))
                | Some ch \<Rightarrow>
                    (case cache_Set ch now createdURL c1 of
                       (Some err, c2) \<Rightarrow> (Inl err, (r2, c2))
                     | (None, c2) \<Rightarrow> (Inr createdURL, (r2, c2))))))"
  using assms
  by (simp add: URLService_CreateShortURL_def Let_def split: prod.splits sum.splits)

lemma attempts_retried_prefix:
  "attempts_retried s now rnd n (Suc k) st = Some st' \<Longrightarrow> \<exists>stk. attempts_retried s now rnd n k st = Some stk"
  by (auto split: option.splits)

lemma generateShortURL_from_skip:
  "attempts_retried s now rnd n k st = Some stk \<Longrightarrow> k \<le> 5 \<Longrightarrow>
   generateShortURL_from s now rnd n 0 st = generateShortURL_from s now rnd n k stk"
proof (induction k arbitrary: stk)
  case 0
  then show ?case by simp
next
  case (Suc k)
  from Suc.prems(1) obtain st0 where p: "attempts_retried s now rnd n k st = Some st0"
    using attempts_retried_prefix by blast
  from Suc.prems(2) have lt: "k < 5" by simp
  from Suc.prems(1) p obtain bytes where b: "rnd k = Inr bytes"
    by (cases "rnd k") simp_all
  from Suc.prems(1) p b obtain cand where
    c: "strip_and_cut (EncodeToString (map bytes [0..<n])) n = Inr cand"
    by (cases "strip_and_cut (EncodeToString (map bytes [0..<n])) n") simp_all
  obtain res st1 where g: "URLService_GetByShort s now cand st0 = (res, st1)"
    by (cases "URLService_GetByShort s now cand st0")
  from Suc.prems(1) p b c g have r: "res \<noteq> Inl ErrURLNotFound" and e: "st1 = stk"
    by (cases res; simp split: if_splits)+
  have "generateShortURL_from s now rnd n k st0 = generateShortURL_from s now rnd n (k + 1) st1"
    using lt b c g r
    by (cases res) (simp_all add: generateShortURL_from.simps [of s now rnd n k st0])
  with Suc.IH [OF p] lt e show ?case by simp
qed

lemma generateShortURL_accepts:
  assumes "attempts_retried s now rnd n k st = Some stk" and "k < 5"
      and "rnd k = Inr bytes"
      and "strip_and_cut (EncodeToString (map bytes [0..<n])) n = Inr cand"
      and "URLService_GetByShort s now cand stk = (Inl ErrURLNotFound, st')"
  shows "generateShortURL s now rnd n st = (Inr cand, st')"
  using generateShortURL_from_skip [OF assms(1)] assms(2-5)
  by (simp add: generateShortURL_def generateShortURL_from.simps [of s now rnd n k stk])

lemma generateShortURL_rand_error:
  assumes "attempts_retried s now rnd n k st = Some stk" and "k < 5" and "rnd k = Inl err"
  shows "generateShortURL s now rnd n st = (Inl err, stk)"
  using generateShortURL_from_skip [OF assms(1)] assms(2,3)
  by (simp add: generateShortURL_def generateShortURL_from.simps [of s now rnd n k stk])

lemma generateShortURL_exhausted:
  assumes "attempts_retried s now rnd n 5 st = Some st5"
  shows "generateShortURL s now rnd n st = (Inl ErrURLExists, st5)"
  using generateShortURL_from_skip [OF assms]
  by (simp add: generateShortURL_def generateShortURL_from.simps [of s now rnd n 5 st5])

lemma attempts_retried_stops:
  "attempts_retried s now rnd n m st = None \<Longrightarrow>
   \<exists>k<m. \<exists>stk. attempts_retried s now rnd n k st = Some stk \<and> attempts_retried s now rnd n (Suc k) st = None"
proof (induction m)
  case 0
  then show ?case by simp
next
  case (Suc m)
  show ?case
  proof (cases "attempts_retried s now rnd n m st")
    case None
    from Suc.IH [OF None] show ?thesis
      using less_Suc_eq by blast
  next
    case (Some stm)
    with Suc.prems show ?thesis by blast
  qed
qed

lemma attempt_not_retried:
  assumes "attempts_retried s now rnd 6 k st = Some stk"
      and "attempts_retried s now rnd 6 (Suc k) st = None"
  shows "(\<exists>err. rnd k = Inl err)
       \<or> (\<exists>bytes st'. rnd k = Inr bytes
             \<and> URLService_GetByShort s now
                  (take 6 (filter (\<lambda>ch. ch \<noteq> CHR ''='') (EncodeToString (map bytes [0..<6])))) stk
                = (Inl ErrURLNotFound, st'))"
proof (cases "rnd k")
  case (Inl err)
  then show ?thesis by blast
next
  case (Inr bytes)
  let ?cand = "take 6 (filter (\<lambda>ch. ch \<noteq> CHR ''='') (EncodeToString (map bytes [0..<6])))"
  from strip_and_cut_6 [of bytes] have c: "strip_and_cut (EncodeToString (map bytes [0..<6])) 6 = Inr ?cand"
    by simp
  obtain res st1 where g: "URLService_GetByShort s now ?cand stk = (res, st1)"
    by (cases "URLService_GetByShort s now ?cand stk")
  from assms Inr c g have "res = Inl ErrURLNotFound"
    by (cases res) (simp_all split: if_splits)
  with Inr g show ?thesis by blast
qed

text \<open>
  C6. For a valid original URL and no custom code. Attempts are made in order, and an
  attempt is given up for the next one when its candidate is not reported not-found.
  After \<open>k < 5\<close> such attempts, if the read path reports the candidate of attempt \<open>k\<close>
  not-found, \<open>generateShortURL\<close> returns that candidate, which has exactly 6 characters and
  is the first 6 characters of the unpadded URL-safe base64 text of the 6 bytes drawn; if
  the draw of attempt \<open>k\<close> fails, its error is returned; after 5 such attempts
  \<open>generateShortURL\<close> and \<open>CreateShortURL\<close> fail with \<open>ErrURLExists\<close>; and one of these three
  cases always applies. Every code returned has these properties and was reported
  not-found by the read path in the state returned; the result depends on the first 5
  draws only; the record that \<open>CreateShortURL\<close> creates is the one built with the generated
  code; and when all 5 attempts find their candidate taken, \<open>CreateShortURL\<close> fails with
  \<open>ErrURLExists\<close>.
\<close>

theorem generated_short_code:
  assumes "ParseRequestURI originalURL"
  shows "(k < 5 \<and> attempts_retried s now rnd 6 k st = Some stk \<and> rnd k = Inr bytes
            \<and> strip_and_cut (EncodeToString (map bytes [0..<6])) 6 = Inr cand
            \<and> URLService_GetByShort s now cand stk = (Inl ErrURLNotFound, st') \<longrightarrow>
            generateShortURL s now rnd 6 st = (Inr cand, st')
          \<and> length cand = 6
          \<and> cand = take 6 (filter (\<lambda>ch. ch \<noteq> CHR ''='') (EncodeToString (map bytes [0..<6]))))
       \<and> (k < 5 \<and> attempts_retried s now rnd 6 k st = Some stk \<and> rnd k = Inl err \<longrightarrow>
            generateShortURL s now rnd 6 st = (Inl err, stk))
       \<and> (attempts_retried s now rnd 6 5 st = Some st5 \<longrightarrow>
            generateShortURL s now rnd 6 st = (Inl ErrURLExists, st5)
          \<and> URLService_CreateShortURL ParseRequestURI s now rnd originalURL [] title expireAfter creatorReference st
              = (Inl ErrURLExists, st5))
       \<and> ((\<exists>st5. attempts_retried s now rnd 6 5 st = Some st5)
          \<or> (\<exists>j<5. \<exists>stj. attempts_retried s now rnd 6 j st = Some stj
                \<and> ((\<exists>err. rnd j = Inl err)
                   \<or> (\<exists>bytes st'. rnd j = Inr bytes
                         \<and> URLService_GetByShort s now
                              (take 6 (filter (\<lambda>ch. ch \<noteq> CHR ''='') (EncodeToString (map bytes [0..<6])))) stj
                            = (Inl ErrURLNotFound, st')))))
       \<and> (generateShortURL s now rnd 6 st = (Inr short, st1) \<longrightarrow>
            length short = 6
          \<and> (\<exists>j<5. \<exists>bytes. rnd j = Inr bytes
                \<and> short = take 6 (filter (\<lambda>ch. ch \<noteq> CHR ''='') (EncodeToString (map bytes [0..<6]))))
          \<and> (\<exists>st0. URLService_GetByShort s now short st0 = (Inl ErrURLNotFound, st1)))
       \<and> ((\<forall>j<5. rnd j = rnd' j) \<longrightarrow> generateShortURL s now rnd 6 st = generateShortURL s now rnd' 6 st)
       \<and> (URLService_CreateShortURL ParseRequestURI s now rnd originalURL [] title expireAfter creatorReference st
              = (Inr created, st2) \<longrightarrow>
            (\<exists>code r1 c1 r2. generateShortURL s now rnd 6 st = (Inr code, (r1, c1))
               \<and> db_Create (db s) now
                    (NewURL now originalURL code title (if expireAfter > 0 then now + expireAfter else 0) creatorReference) r1
                  = (Inr created, r2)))
       \<and> (attempts_all_taken s now rnd 6 5 0 st \<longrightarrow>
            fst (URLService_CreateShortURL ParseRequestURI s now rnd originalURL [] title expireAfter creatorReference st)
              = Inl ErrURLExists)"
proof (intro conjI impI)
  assume a: "k < 5 \<and> attempts_retried s now rnd 6 k st = Some stk \<and> rnd k = Inr bytes
            \<and> strip_and_cut (EncodeToString (map bytes [0..<6])) 6 = Inr cand
            \<and> URLService_GetByShort s now cand stk = (Inl ErrURLNotFound, st')"
  then show "generateShortURL s now rnd 6 st = (Inr cand, st')"
    using generateShortURL_accepts [of s now rnd 6 k st stk bytes cand st'] by blast
  from a strip_and_cut_6 [of bytes]
  show "length cand = 6"
    and "cand = take 6 (filter (\<lambda>ch. ch \<noteq> CHR ''='') (EncodeToString (map bytes [0..<6])))"
    by auto
next
  assume "k < 5 \<and> attempts_retried s now rnd 6 k st = Some stk \<and> rnd k = Inl err"
  then show "generateShortURL s now rnd 6 st = (Inl err, stk)"
    using generateShortURL_rand_error [of s now rnd 6 k st stk err] by blast
next
  assume e: "attempts_retried s now rnd 6 5 st = Some st5"
  then show g: "generateShortURL s now rnd 6 st = (Inl ErrURLExists, st5)"
    by (rule generateShortURL_exhausted)
  show "URLService_CreateShortURL ParseRequestURI s now rnd originalURL [] title expireAfter creatorReference st
              = (Inl ErrURLExists, st5)"
    unfolding CreateShortURL_generated [of ParseRequestURI originalURL, OF assms] g by simp
next
  show "(\<exists>st5. attempts_retried s now rnd 6 5 st = Some st5)
          \<or> (\<exists>j<5. \<exists>stj. attempts_retried s now rnd 6 j st = Some stj
                \<and> ((\<exists>err. rnd j = Inl err)
                   \<or> (\<exists>bytes st'. rnd j = Inr bytes
                         \<and> URLService_GetByShort s now
                              (take 6 (filter (\<lambda>ch. ch \<noteq> CHR ''='') (EncodeToString (map bytes [0..<6])))) stj
                            = (Inl ErrURLNotFound, st'))))"
  proof (cases "attempts_retried s now rnd 6 5 st")
    case (Some st5)
    then show ?thesis by blast
  next
    case None
    from attempts_retried_stops [OF None] obtain j stj where
      "j < 5" "attempts_retried s now rnd 6 j st = Some stj" "attempts_retried s now rnd 6 (Suc j) st = None"
      by blast
    with attempt_not_retried [of s now rnd j st stj] show ?thesis
      by blast
  qed
next
  assume run: "generateShortURL s now rnd 6 st = (Inr short, st1)"
  then obtain j bytes st0 where
    j: "j < 5" and b: "rnd j = Inr bytes" and
    c: "strip_and_cut (EncodeToString (map bytes [0..<6])) 6 = Inr short" and
    g: "URLService_GetByShort s now short st0 = (Inl ErrURLNotFound, st1)"
    unfolding generateShortURL_def using generateShortURL_from_accept by blast
  from strip_and_cut_6 [of bytes] c
  have sh: "short = take 6 (filter (\<lambda>ch. ch \<noteq> CHR ''='') (EncodeToString (map bytes [0..<6])))"
    and len: "length short = 6"
    by auto
  show "length short = 6" by (rule len)
  show "\<exists>j<5. \<exists>bytes. rnd j = Inr bytes
          \<and> short = take 6 (filter (\<lambda>ch. ch \<noteq> CHR ''='') (EncodeToString (map bytes [0..<6])))"
    using j b sh by blast
  show "\<exists>st0. URLService_GetByShort s now short st0 = (Inl ErrURLNotFound, st1)"
    using g by blast
next
  assume "\<forall>j<5. rnd j = rnd' j"
  then show "generateShortURL s now rnd 6 st = generateShortURL s now rnd' 6 st"
    unfolding generateShortURL_def by (rule generateShortURL_from_entropy)
next
  assume "URLService_CreateShortURL ParseRequestURI s now rnd originalURL [] title expireAfter creatorReference st
            = (Inr created, st2)"
  then show "\<exists>code r1 c1 r2. generateShortURL s now rnd 6 st = (Inr code, (r1, c1))
               \<and> db_Create (db s) now
                    (NewURL now originalURL code title (if expireAfter > 0 then now + expireAfter else 0) creatorReference) r1
                  = (Inr created, r2)"
    unfolding CreateShortURL_generated [of ParseRequestURI originalURL, OF assms]
    by (auto split: prod.splits sum.splits option.splits)
next
  assume "attempts_all_taken s now rnd 6 5 0 st"
  then have "fst (generateShortURL s now rnd 6 st) = Inl ErrURLExists"
    unfolding generateShortURL_def by (rule generateShortURL_from_exhausted) simp
  then show "fst (URLService_CreateShortURL ParseRequestURI s now rnd originalURL [] title expireAfter creatorReference st)
              = Inl ErrURLExists"
    unfolding CreateShortURL_generated [of ParseRequestURI originalURL, OF assms]
    by (auto split: prod.splits sum.splits)
qed

lemma five_Suc: "(5::nat) = Suc (Suc (Suc (Suc (Suc 0))))"
  by simp

theorem generated_short_code_witness:
  "example_parse ''https://example.org''
   \<and> fst (URLService_GetByShort example_service 100 ''AAAAAA'' (taken_pool, empty_cache))
        = Inr (example_row\<lparr>Short := ''AAAAAA''\<rparr>)
   \<and> fst (generateShortURL example_service 100 two_step_entropy 6 (taken_pool, empty_cache)) = Inr ''______''
   \<and> fst (generateShortURL example_service 100 zero_entropy 6 (example_pool, empty_cache)) = Inr ''AAAAAA''
   \<and> attempts_all_taken example_service 100 zero_entropy 6 5 0 (taken_pool, empty_cache)
   \<and> fst (URLService_CreateShortURL example_parse example_service 100 zero_entropy
             ''https://example.org'' [] ''T'' 0 ''A'' (taken_pool, empty_cache)) = Inl ErrURLExists"
proof -
  let ?st = "(taken_pool, empty_cache)"
  let ?first = "URLService_GetByShort example_service 100 ''AAAAAA'' ?st"
  let ?second = "URLService_GetByShort example_service 100 ''______'' (snd ?first)"
  let ?free = "generateShortURL example_service 100 zero_entropy 6 (example_pool, empty_cache)"
  have hP: "example_parse ''https://example.org''"
    by (simp add: example_parse_def)
  have code0: "strip_and_cut (EncodeToString (map (\<lambda>j. 0) [0..<6])) 6 = Inr ''AAAAAA''"
    by (simp add: upt_6 strip_and_cut_def encodeURL_def)
  have code1: "strip_and_cut (EncodeToString (map (\<lambda>j. 255) [0..<6])) 6 = Inr ''______''"
    by (simp add: upt_6 strip_and_cut_def encodeURL_def)
  have first: "fst ?first = Inr (example_row\<lparr>Short := ''AAAAAA''\<rparr>)"
    by (simp add: URLService_GetByShort_def impl_defs pg_defs cache_defs ex_defs taken_pool_def
          IsZero_def Before_def Hour_def)
  then have first': "?first = (Inr (example_row\<lparr>Short := ''AAAAAA''\<rparr>), snd ?first)"
    by (simp add: prod_eq_iff)
  have second: "fst ?second = Inl ErrURLNotFound"
    by (simp add: URLService_GetByShort_def impl_defs pg_defs cache_defs ex_defs taken_pool_def
          IsZero_def Before_def Hour_def)
  then have second': "?second = (Inl ErrURLNotFound, snd ?second)"
    by (simp add: prod_eq_iff)
  have retried: "attempts_retried example_service 100 two_step_entropy 6 1 ?st = Some (snd ?first)"
    unfolding One_nat_def
    by (simp add: two_step_entropy_def code0 case_prod_beta first)
  have "(1::nat) < 5" by simp
  have r1: "two_step_entropy 1 = Inr (\<lambda>j. 255)"
    by (simp add: two_step_entropy_def)
  note T = generated_short_code [of example_parse "''https://example.org''", OF hP]
  from T [where k = 1 and s = example_service and now = 100 and rnd = two_step_entropy and st = ?st
            and stk = "snd ?first" and bytes = "\<lambda>j. 255" and cand = "''______''" and st' = "snd ?second"]
       retried r1 code1 second' \<open>(1::nat) < 5\<close>
  have accepted: "generateShortURL example_service 100 two_step_entropy 6 ?st = (Inr ''______'', snd ?second)"
    by blast
  have free: "URLService_GetByShort example_service 100 ''AAAAAA'' (example_pool, empty_cache)
                = (Inl ErrURLNotFound, (example_pool, empty_cache))"
    by (simp add: URLService_GetByShort_def impl_defs pg_defs cache_defs ex_defs)
  have g: "fst ?free = Inr ''AAAAAA''"
    by (simp add: generateShortURL_def generateShortURL_from.simps [of _ _ _ _ 0] zero_entropy_def code0 free)
  have taken: "attempts_all_taken example_service 100 zero_entropy 6 5 0 ?st"
    unfolding five_Suc
    by (simp add: zero_entropy_def code0 URLService_GetByShort_def impl_defs pg_defs cache_defs ex_defs
          taken_pool_def json_Unmarshal_def set_member_simps zeroURL_def IsZero_def Before_def Hour_def)
  from T [where s = example_service and now = 100 and rnd = zero_entropy
            and st = ?st and title = "''T''" and expireAfter = 0 and creatorReference = "''A''"] taken
  have p2: "fst (URLService_CreateShortURL example_parse example_service 100 zero_entropy
             ''https://example.org'' [] ''T'' 0 ''A'' ?st) = Inl ErrURLExists"
    by blast
  show ?thesis
    using hP first accepted g taken p2 by simp
qed

end
